theory Spec2Isabelle
  imports Complex_Main
begin

section \<open>The raster engine of the image editor (renderer.ts)\<close>

text \<open>
  The class \<^verbatim>\<open>Renderer\<close> keeps five canvases (background, base image, reference image,
  edit, overlay), a bounded undo history of the base image, a selection rectangle and a
  view transform. The embedding below is a state record and one function per method; a
  method that mutates the renderer takes the state and returns the new one.

  JavaScript numbers are modelled as real numbers (no NaN, no infinities, no rounding of
  the double format), canvas and image dimensions as natural numbers, colour channels as
  natural numbers (0..255). A method returns \<open>Inl e\<close> when it throws \<open>e\<close> and \<open>Inr s'\<close>
  when it completes in the state \<open>s'\<close>; the state a throwing call leaves behind is not
  modelled. Snapshot listeners are callbacks of the user interface and are not modelled:
  \<^verbatim>\<open>notifySnapshotListeners\<close> leaves the renderer as it is.

  The layers are canvases the constructor creates and only ever asks for their 2d context,
  so \<^verbatim>\<open>getContext("2d")\<close> returns the context and every guard \<^verbatim>\<open>if (context)\<close> of the source
  is passed. Of the canvas interface the model keeps what the methods below use:
  \<^verbatim>\<open>getImageData\<close>, \<^verbatim>\<open>putImageData\<close>, \<^verbatim>\<open>clearRect\<close> and \<^verbatim>\<open>drawImage\<close>, with the two errors
  they throw for an empty rectangle and an empty source canvas. Coordinates are taken to
  lie within the 32 bit range of the interface.
\<close>

subsection \<open>The canvas of the platform\<close>

text \<open>
  \<^verbatim>\<open>ImageData\<close> is the flat array the source indexes (\<^verbatim>\<open>data[i + 3]\<close>): four bytes per
  pixel, rows first.
\<close>

record imagedata =
  iwidth :: nat
  iheight :: nat
  idata :: "nat list"

text \<open>
  A canvas is its bitmap: \<open>cbyte c x y k\<close> is channel \<open>k\<close> (0 red, 1 green, 2 blue,
  3 alpha) of the pixel in column \<open>x\<close> and row \<open>y\<close>. Only the pixels inside the canvas
  are ever read. The bitmap keeps the four channels as they were written (straight
  alpha). The platform keeps the colour multiplied by the alpha: an opaque pixel reads
  back byte for byte as it was written, while colour written into a pixel that is not
  opaque can read back changed (as 0 where the alpha is 0). What is stated below about
  the colour bytes that the smudge brush writes is therefore stated for opaque pixels.
\<close>

record canvas =
  cwidth :: nat
  cheight :: nat
  cbyte :: "int \<Rightarrow> int \<Rightarrow> nat \<Rightarrow> nat"

datatype error = NoSelectionOverlay | IndexSizeError | InvalidStateError

text \<open>A new canvas, and a canvas whose width or height has just been assigned, is
  transparent black.\<close>

definition blankCanvas :: "nat \<Rightarrow> nat \<Rightarrow> canvas" where
  "blankCanvas w h = \<lparr>cwidth = w, cheight = h, cbyte = (\<lambda>x y k. 0)\<rparr>"

definition inCanvas :: "canvas \<Rightarrow> int \<Rightarrow> int \<Rightarrow> bool" where
  "inCanvas c x y = (0 \<le> x \<and> x < int (cwidth c) \<and> 0 \<le> y \<and> y < int (cheight c))"

definition degenerate :: "canvas \<Rightarrow> bool" where
  "degenerate c = (cwidth c = 0 \<or> cheight c = 0)"

text \<open>The conversion of a number to the \<^verbatim>\<open>long\<close> arguments of the canvas interface drops
  the fraction.\<close>

definition trunc :: "real \<Rightarrow> int" where
  "trunc r = (if 0 \<le> r then \<lfloor>r\<rfloor> else \<lceil>r\<rceil>)"

text \<open>
  \<^verbatim>\<open>getImageData(sx, sy, sw, sh)\<close>: throws IndexSizeError when the width or the height
  of the rectangle is zero; a negative extent turns the rectangle over; pixels outside the
  canvas read as transparent black.
\<close>

definition getImageData :: "canvas \<Rightarrow> real \<Rightarrow> real \<Rightarrow> real \<Rightarrow> real \<Rightarrow> error + imagedata" where
  "getImageData c sx sy sw sh =
    (if trunc sw = 0 \<or> trunc sh = 0 then Inl IndexSizeError
     else
       let x0 = (if trunc sw < 0 then trunc sx + trunc sw else trunc sx);
           y0 = (if trunc sh < 0 then trunc sy + trunc sh else trunc sy);
           w = nat \<bar>trunc sw\<bar>;
           h = nat \<bar>trunc sh\<bar>
       in Inr \<lparr>iwidth = w, iheight = h,
                idata = map (\<lambda>i. let x = x0 + int ((i div 4) mod w);
                                       y = y0 + int ((i div 4) div w)
                                   in if inCanvas c x y then cbyte c x y (i mod 4) else 0)
                          [0..<4 * w * h]\<rparr>)"

text \<open>\<^verbatim>\<open>putImageData(imageData, dx, dy)\<close> replaces the four channels of the pixels of the
  canvas that the image covers; nothing is blended. The bytes are stored as they are
  given, which is what the platform does for opaque pixels.\<close>


definition putImageData :: "canvas \<Rightarrow> imagedata \<Rightarrow> real \<Rightarrow> real \<Rightarrow> canvas" where
  "putImageData c img dx dy =
    c\<lparr>cbyte := (\<lambda>x y k.
        let ix = x - trunc dx; iy = y - trunc dy in
        if inCanvas c x y \<and> 0 \<le> ix \<and> ix < int (iwidth img) \<and> 0 \<le> iy \<and> iy < int (iheight img)
           \<and> k < 4
        then idata img ! (4 * (nat iy * iwidth img + nat ix) + k)
        else cbyte c x y k)\<rparr>"

text \<open>\<^verbatim>\<open>clearRect(0, 0, width, height)\<close> on a layer (no transform is ever set on a layer's
  context).\<close>

definition clearRect :: "canvas \<Rightarrow> canvas" where
  "clearRect c = c\<lparr>cbyte := (\<lambda>x y k. if inCanvas c x y then 0 else cbyte c x y k)\<rparr>"

text \<open>
  Source-over compositing of one pixel on another, on straight alpha with integer
  rounding: a transparent source leaves the destination, a source on a transparent
  destination or an opaque source replaces it.
\<close>

definition sourceOver :: "(nat \<Rightarrow> nat) \<Rightarrow> (nat \<Rightarrow> nat) \<Rightarrow> nat \<Rightarrow> nat" where
  "sourceOver src dst k =
    (if src 3 = 0 then dst k
     else if dst 3 = 0 \<or> 255 \<le> src 3 then src k
     else let a = src 3 + (dst 3 * (255 - src 3)) div 255 in
          if k = 3 then a
          else (src k * src 3 * 255 + dst k * dst 3 * (255 - src 3)) div (a * 255))"

text \<open>
  \<^verbatim>\<open>drawImage(image, dx, dy)\<close> with the default compositing: throws InvalidStateError
  for a canvas of width or height zero. An image element is modelled as the canvas of its
  pixels. The offset is placed at the whole pixel (the platform resamples at a fractional
  offset; every call below but one draws at offset 0).
\<close>

definition drawImage :: "canvas \<Rightarrow> canvas \<Rightarrow> real \<Rightarrow> real \<Rightarrow> error + canvas" where
  "drawImage c img dx dy =
    (if degenerate img then Inl InvalidStateError
     else Inr (c\<lparr>cbyte := (\<lambda>x y k.
        if inCanvas c x y \<and> inCanvas img (x - trunc dx) (y - trunc dy)
        then sourceOver (cbyte img (x - trunc dx) (y - trunc dy)) (cbyte c x y) k
        else cbyte c x y k)\<rparr>))"

text \<open>The raster of a layer, byte for byte: what \<^verbatim>\<open>getImageData\<close> reads from the whole
  canvas.\<close>

definition raster :: "canvas \<Rightarrow> error + imagedata" where
  "raster c = getImageData c 0 0 (real (cwidth c)) (real (cheight c))"

subsection \<open>The state of the renderer\<close>

record rect =
  rect_x :: real
  rect_y :: real
  rect_width :: real
  rect_height :: real

text \<open>\<open>canvasWidth\<close> and \<open>canvasHeight\<close> are \<^verbatim>\<open>this.canvas.width\<close> and
  \<^verbatim>\<open>this.canvas.height\<close>, the size of the visible canvas (the viewport); \<open>width\<close> and
  \<open>height\<close> are the size of the image.\<close>

record renderer =
  undoStack :: "imagedata list"
  redoStack :: "imagedata list"
  currentSnapshot :: "imagedata option"
  canvasWidth :: nat
  canvasHeight :: nat
  backgroundLayer :: canvas
  baseImageLayer :: canvas
  refImageLayer :: canvas
  editLayer :: canvas
  overlayLayer :: canvas
  selectionOverlay :: "rect option"
  hasSelection :: bool
  zoom :: real
  offsetX :: real
  offsetY :: real
  width :: nat
  height :: nat

definition maxSnapshots :: nat where
  "maxSnapshots = 50"

text \<open>The constructor: \<^verbatim>\<open>document.createElement("canvas")\<close> gives a canvas of 300 by 150
  pixels.\<close>

definition createRenderer :: "nat \<Rightarrow> nat \<Rightarrow> renderer" where
  "createRenderer cw ch =
    \<lparr>undoStack = [], redoStack = [], currentSnapshot = None,
     canvasWidth = cw, canvasHeight = ch,
     backgroundLayer = blankCanvas cw ch,
     baseImageLayer = blankCanvas 300 150,
     refImageLayer = blankCanvas 300 150,
     editLayer = blankCanvas 300 150,
     overlayLayer = blankCanvas 300 150,
     selectionOverlay = None, hasSelection = False,
     zoom = 1, offsetX = 0, offsetY = 0, width = 0, height = 0\<rparr>"

text \<open>
  \<^verbatim>\<open>render()\<close> draws the five layers on the visible canvas. The visible canvas is
  written and never read, so its pixels are not part of the state; what remains of
  \<^verbatim>\<open>render\<close> is that \<^verbatim>\<open>drawImage\<close> throws for a layer of width or height zero.
\<close>

definition render :: "renderer \<Rightarrow> error + renderer" where
  "render s =
    (if degenerate (backgroundLayer s) \<or> degenerate (baseImageLayer s)
        \<or> degenerate (refImageLayer s) \<or> degenerate (editLayer s)
        \<or> degenerate (overlayLayer s)
     then Inl InvalidStateError else Inr s)"

definition renderable :: "renderer \<Rightarrow> bool" where
  "renderable s =
    (\<not> degenerate (backgroundLayer s) \<and> \<not> degenerate (baseImageLayer s)
     \<and> \<not> degenerate (refImageLayer s) \<and> \<not> degenerate (editLayer s)
     \<and> \<not> degenerate (overlayLayer s))"

definition thenDo :: "error + 'a \<Rightarrow> ('a \<Rightarrow> error + 'b) \<Rightarrow> error + 'b" where
  "thenDo m f = (case m of Inl e \<Rightarrow> Inl e | Inr v \<Rightarrow> f v)"

subsection \<open>The undo history\<close>

definition snapshot :: "renderer \<Rightarrow> error + renderer" where
  "snapshot s =
    thenDo (getImageData (baseImageLayer s) 0 0
              (real (cwidth (baseImageLayer s))) (real (cheight (baseImageLayer s))))
      (\<lambda>snap.
        case currentSnapshot s of
          Some cur \<Rightarrow>
            let s1 = s\<lparr>undoStack := undoStack s @ [cur], currentSnapshot := Some snap\<rparr>;
                s2 = (if length (redoStack s1) > 0 then s1\<lparr>redoStack := []\<rparr> else s1);
                s3 = (if length (undoStack s2) > maxSnapshots
                      then s2\<lparr>undoStack := tl (undoStack s2)\<rparr> else s2)
            in Inr s3
        | None \<Rightarrow> Inr (s\<lparr>currentSnapshot := Some snap\<rparr>))"

text \<open>\<open>undoRestore\<close> and \<open>redoRestore\<close> are the assignments \<^verbatim>\<open>undo\<close> and \<^verbatim>\<open>redo\<close> make
  inside their guard, up to the call of \<^verbatim>\<open>render\<close>.\<close>

definition undoRestore :: "renderer \<Rightarrow> imagedata \<Rightarrow> bool \<Rightarrow> renderer" where
  "undoRestore s cur allowRedo =
    (let imageData = last (undoStack s);
         s1 = s\<lparr>undoStack := butlast (undoStack s)\<rparr>;
         s2 = (if allowRedo then s1\<lparr>redoStack := redoStack s1 @ [cur]\<rparr> else s1);
         s3 = s2\<lparr>currentSnapshot := Some imageData\<rparr>
     in s3\<lparr>baseImageLayer := putImageData (clearRect (baseImageLayer s3)) imageData 0 0\<rparr>)"

definition undo :: "renderer \<Rightarrow> bool \<Rightarrow> error + renderer" where
  "undo s allowRedo =
    (case currentSnapshot s of
       Some cur \<Rightarrow>
         if length (undoStack s) > 0 then render (undoRestore s cur allowRedo) else Inr s
     | None \<Rightarrow> Inr s)"

definition redoRestore :: "renderer \<Rightarrow> imagedata \<Rightarrow> renderer" where
  "redoRestore s cur =
    (let s1 = s\<lparr>undoStack := undoStack s @ [cur]\<rparr>;
         imageData = last (redoStack s1);
         s2 = s1\<lparr>redoStack := butlast (redoStack s1), currentSnapshot := Some imageData\<rparr>
     in s2\<lparr>baseImageLayer := putImageData (baseImageLayer s2) imageData 0 0\<rparr>)"

definition redo :: "renderer \<Rightarrow> error + renderer" where
  "redo s =
    (case currentSnapshot s of
       Some cur \<Rightarrow>
         if length (redoStack s) > 0 then render (redoRestore s cur) else Inr s
     | None \<Rightarrow> Inr s)"

definition clearRedoStack :: "renderer \<Rightarrow> renderer" where
  "clearRedoStack s = s\<lparr>redoStack := []\<rparr>"

definition canUndo :: "renderer \<Rightarrow> bool" where
  "canUndo s = (\<not> hasSelection s \<and> length (undoStack s) > 0)"

definition canRedo :: "renderer \<Rightarrow> bool" where
  "canRedo s = (\<not> hasSelection s \<and> length (redoStack s) > 0)"

subsection \<open>Selection, view and base image\<close>

definition setSelectionOverlay :: "renderer \<Rightarrow> rect option \<Rightarrow> error + renderer" where
  "setSelectionOverlay s sel = render (s\<lparr>selectionOverlay := sel\<rparr>)"

definition updateZoomAndOffset :: "renderer \<Rightarrow> real \<Rightarrow> real \<Rightarrow> real \<Rightarrow> error + renderer" where
  "updateZoomAndOffset s z ox oy = render (s\<lparr>zoom := z, offsetX := ox, offsetY := oy\<rparr>)"

definition resetView :: "renderer \<Rightarrow> error + renderer" where
  "resetView s =
    (let imageAspectRatio = real (width s) / real (height s);
         canvasAspectRatio = real (canvasWidth s) / real (canvasHeight s)
     in if imageAspectRatio > canvasAspectRatio then
          let z = real (canvasWidth s) / real (width s);
              ox = 0;
              oy = (real (height s) - real (canvasHeight s) / z) / (- 2)
          in updateZoomAndOffset s z ox oy
        else
          let z = real (canvasHeight s) / real (height s);
              oy = 0;
              ox = (real (width s) - real (canvasWidth s) / z) / (- 2)
          in updateZoomAndOffset s z ox oy)"

text \<open>\<^verbatim>\<open>setBaseImage(image, updateSelectionOverlay)\<close>: assigning the sizes clears the four
  layers; the background pattern is repainted (its pixels are not part of the state).\<close>

definition setBaseImage :: "renderer \<Rightarrow> canvas \<Rightarrow> bool \<Rightarrow> error + renderer" where
  "setBaseImage s img updateSelectionOverlay =
    (let s1 = s\<lparr>baseImageLayer := blankCanvas (cwidth img) (cheight img),
                refImageLayer := blankCanvas (cwidth img) (cheight img),
                editLayer := blankCanvas (cwidth img) (cheight img),
                overlayLayer := blankCanvas (cwidth img) (cheight img),
                width := cwidth img, height := cheight img\<rparr>
     in thenDo (drawImage (baseImageLayer s1) img 0 0) (\<lambda>b.
        thenDo (if updateSelectionOverlay
                then setSelectionOverlay (s1\<lparr>baseImageLayer := b\<rparr>)
                       (Some \<lparr>rect_x = (real (cwidth img) - 1024) / 2,
                              rect_y = (real (cheight img) - 1024) / 2,
                              rect_width = 1024, rect_height = 1024\<rparr>)
                else Inr (s1\<lparr>baseImageLayer := b\<rparr>)) (\<lambda>s2.
        thenDo (resetView s2) snapshot)))"

subsection \<open>The edit layer and the selection\<close>

definition setEditImage :: "renderer \<Rightarrow> imagedata option \<Rightarrow> error + renderer" where
  "setEditImage s imageData =
    (let s1 = s\<lparr>hasSelection := (imageData \<noteq> None)\<rparr> in
     case selectionOverlay s1 of
       Some sel \<Rightarrow>
         let cleared = clearRect (editLayer s1);
             drawn = (case imageData of
                        Some img \<Rightarrow> putImageData cleared img (rect_x sel) (rect_y sel)
                      | None \<Rightarrow> cleared)
         in render (s1\<lparr>editLayer := drawn, hasSelection := (imageData \<noteq> None)\<rparr>)
     | None \<Rightarrow> Inr s1)"

text \<open>\<^verbatim>\<open>commitSelection()\<close>: the base layer and then the edit layer are drawn on a
  temporary canvas of the size of the base layer, and the temporary canvas is drawn on the
  base layer.\<close>

definition commitSelection :: "renderer \<Rightarrow> error + renderer" where
  "commitSelection s =
    (let tempCanvas = blankCanvas (cwidth (baseImageLayer s)) (cheight (baseImageLayer s)) in
     thenDo (drawImage tempCanvas (baseImageLayer s) 0 0) (\<lambda>t1.
     thenDo (drawImage t1 (editLayer s) 0 0) (\<lambda>t2.
     thenDo (drawImage (baseImageLayer s) t2 0 0) (\<lambda>b.
     thenDo (setEditImage (s\<lparr>baseImageLayer := b\<rparr>) None) snapshot))))"

definition copyEditImageFromBaseImage :: "renderer \<Rightarrow> error + renderer" where
  "copyEditImageFromBaseImage s =
    thenDo (drawImage (editLayer s) (baseImageLayer s) 0 0) (\<lambda>e.
    thenDo (render (s\<lparr>editLayer := e\<rparr>)) (\<lambda>s1. Inr (s1\<lparr>hasSelection := True\<rparr>)))"

subsection \<open>Erasing\<close>

text \<open>The remainder operator \<^verbatim>\<open>%\<close> of JavaScript takes the sign of the dividend.\<close>

definition jsRem :: "real \<Rightarrow> real \<Rightarrow> real" where
  "jsRem a b = a - b * real_of_int (trunc (a / b))"

text \<open>One round of the loop of \<^verbatim>\<open>erasePoint\<close>, for the pixel that starts at index \<open>i\<close> of the
  window.\<close>

definition erasePixel ::
  "renderer \<Rightarrow> rect \<Rightarrow> real \<Rightarrow> real \<Rightarrow> real \<Rightarrow> nat list \<Rightarrow> nat \<Rightarrow> nat list" where
  "erasePixel s sel brushx brushy brushSize d i =
    (let x = jsRem (real i / 4) brushSize;
         y = real_of_int \<lfloor>real i / 4 / brushSize\<rfloor>;
         absx = x - brushSize / 2 + brushx;
         leftEdge = (if rect_x sel > 0 then rect_x sel + 10 else rect_x sel);
         rightEdge = (if rect_x sel + rect_width sel < real (width s)
                      then rect_x sel + rect_width sel - 10
                      else rect_x sel + rect_width sel);
         topEdge = (if rect_y sel > 0 then rect_y sel + 10 else rect_y sel);
         bottomEdge = (if rect_y sel + rect_height sel < real (canvasHeight s)
                       then rect_y sel + rect_height sel - 10
                       else rect_y sel + rect_height sel);
         containsx = (absx > leftEdge \<and> absx < rightEdge);
         absy = y - brushSize / 2 + brushy;
         containsy = (absy > topEdge \<and> absy < bottomEdge);
         contains = (containsx \<and> containsy)
     in if \<not> contains then d
        else let distance = sqrt ((x - brushSize / 2)\<^sup>2 + (y - brushSize / 2)\<^sup>2)
             in if distance < brushSize / 2 then d[i + 3 := 0] else d)"

text \<open>The indices \<open>0, 4, 8, \<dots>\<close> of the pixels of an \<^verbatim>\<open>ImageData\<close> array; its length is a
  multiple of four.\<close>

definition pixelIndices :: "nat list \<Rightarrow> nat list" where
  "pixelIndices d = map (\<lambda>p. 4 * p) [0..<length d div 4]"

definition erasePoint :: "renderer \<Rightarrow> real \<Rightarrow> real \<Rightarrow> real \<Rightarrow> error + renderer" where
  "erasePoint s brushx brushy brushSize =
    (case selectionOverlay s of
       None \<Rightarrow> Inl NoSelectionOverlay
     | Some sel \<Rightarrow>
         thenDo (getImageData (baseImageLayer s) (brushx - brushSize / 2) (brushy - brushSize / 2)
                   brushSize brushSize)
           (\<lambda>imageData.
              let d = foldl (erasePixel s sel brushx brushy brushSize) (idata imageData)
                        (pixelIndices (idata imageData))
              in Inr (s\<lparr>baseImageLayer :=
                          putImageData (baseImageLayer s) (imageData\<lparr>idata := d\<rparr>)
                            (brushx - brushSize / 2) (brushy - brushSize / 2)\<rparr>)))"

subsection \<open>Growing the image to the selection\<close>

text \<open>Assigning a number to the width or height of a canvas converts it to an unsigned
  32 bit integer; a value above \<open>2^31 - 1\<close> gives the default size of the attribute (300 for
  the width, 150 for the height).\<close>

definition toCanvasSize :: "nat \<Rightarrow> real \<Rightarrow> nat" where
  "toCanvasSize dflt r =
    (let v = nat (trunc r mod 2 ^ 32) in if v \<le> 2147483647 then v else dflt)"

definition expandToOverlay :: "renderer \<Rightarrow> error + renderer" where
  "expandToOverlay s =
    (case selectionOverlay s of
       None \<Rightarrow> Inl NoSelectionOverlay
     | Some sel \<Rightarrow>
         let minX = min 0 (rect_x sel);
             minY = min 0 (rect_y sel);
             maxX = max (rect_x sel + rect_width sel) (real (cwidth (baseImageLayer s)));
             maxY = max (rect_y sel + rect_height sel) (real (cheight (baseImageLayer s)));
             w = maxX - minX;
             h = maxY - minY;
             newCanvas = blankCanvas (toCanvasSize 300 w) (toCanvasSize 150 h)
         in thenDo (drawImage newCanvas (baseImageLayer s)
                      (max 0 (rect_x sel * (- 1))) (max 0 (rect_y sel * (- 1))))
              (\<lambda>drawn.
                 let sel1 = (if rect_x sel < 0 then sel\<lparr>rect_x := 0\<rparr> else sel);
                     sel2 = (if rect_y sel1 < 0 then sel1\<lparr>rect_y := 0\<rparr> else sel1)
                 in setBaseImage (s\<lparr>selectionOverlay := Some sel2\<rparr>) drawn False))"

subsection \<open>Masks and erasures\<close>

definition maskToErasurePixel :: "nat list \<Rightarrow> nat \<Rightarrow> nat list" where
  "maskToErasurePixel d i =
    (let white = (d ! i = 255) in
     if white then d[i := 255, i + 1 := 255, i + 2 := 255, i + 3 := 0]
     else d[i := 0, i + 1 := 0, i + 2 := 0, i + 3 := 255])"

definition convertMaskToErasure :: "imagedata \<Rightarrow> imagedata" where
  "convertMaskToErasure erasure =
    erasure\<lparr>idata := foldl maskToErasurePixel (idata erasure) (pixelIndices (idata erasure))\<rparr>"

definition erasureToMaskPixel :: "nat list \<Rightarrow> nat \<Rightarrow> nat list" where
  "erasureToMaskPixel d i =
    (let white = (d ! (i + 3) < 255) in
     if white then d[i := 255, i + 1 := 255, i + 2 := 255, i + 3 := 255]
     else d[i := 0, i + 1 := 0, i + 2 := 0, i + 3 := 255])"

definition convertErasureToMask :: "imagedata \<Rightarrow> imagedata" where
  "convertErasureToMask mask' =
    mask'\<lparr>idata := foldl erasureToMaskPixel (idata mask') (pixelIndices (idata mask'))\<rparr>"

subsection \<open>Smudging\<close>

text \<open>Storing a number in the \<^verbatim>\<open>Uint8ClampedArray\<close> of an \<^verbatim>\<open>ImageData\<close>: clamped to
  0..255 and rounded to the nearest integer, halves to the even one.\<close>

definition toUint8Clamped :: "real \<Rightarrow> nat" where
  "toUint8Clamped v =
    (if v \<le> 0 then 0
     else if 255 \<le> v then 255
     else let f = \<lfloor>v\<rfloor>; r = v - real_of_int f
          in nat (if r < 1 / 2 then f
                  else if 1 / 2 < r then f + 1
                  else if even f then f else f + 1))"

text \<open>The body of the first pair of loops of \<^verbatim>\<open>smudgeLine\<close>, at row \<open>y\<close> and column \<open>x\<close>
  of the window: the totals of red, green and blue and the count.\<close>

definition smudgeTotal ::
  "imagedata \<Rightarrow> real \<Rightarrow> real \<times> real \<times> real \<times> real \<Rightarrow> nat \<times> nat \<Rightarrow> real \<times> real \<times> real \<times> real" where
  "smudgeTotal imageData brushSize acc yx =
    (case acc of (totalRed, totalGreen, totalBlue, count) \<Rightarrow>
     case yx of (y, x) \<Rightarrow>
       let index = (y * iwidth imageData + x) * 4;
           distance = sqrt ((real x - brushSize / 2) * (real x - brushSize / 2)
                          + (real y - brushSize / 2) * (real y - brushSize / 2))
       in if distance \<le> brushSize / 2
          then (totalRed + real (idata imageData ! index),
                totalGreen + real (idata imageData ! (index + 1)),
                totalBlue + real (idata imageData ! (index + 2)),
                count + 1)
          else acc)"

text \<open>The body of the second pair of loops: the three colour bytes of the pixel are
  rewritten one after the other, the alpha byte at \<open>index + 3\<close> is not assigned.\<close>

definition smudgeBlend ::
  "nat \<Rightarrow> real \<Rightarrow> real \<Rightarrow> real \<times> real \<times> real \<Rightarrow> nat list \<Rightarrow> nat \<times> nat \<Rightarrow> nat list" where
  "smudgeBlend w brushSize brushOpacity avg d yx =
    (case avg of (averageRed, averageGreen, averageBlue) \<Rightarrow>
     case yx of (y, x) \<Rightarrow>
       let index = (y * w + x) * 4;
           distance = sqrt ((real x - brushSize / 2) * (real x - brushSize / 2)
                          + (real y - brushSize / 2) * (real y - brushSize / 2))
       in if distance \<le> brushSize / 2
          then let d1 = d[index := toUint8Clamped
                          (averageRed * brushOpacity + real (d ! index) * (1 - brushOpacity))];
                   d2 = d1[index + 1 := toUint8Clamped
                          (averageGreen * brushOpacity + real (d1 ! (index + 1)) * (1 - brushOpacity))];
                   d3 = d2[index + 2 := toUint8Clamped
                          (averageBlue * brushOpacity + real (d2 ! (index + 2)) * (1 - brushOpacity))]
               in d3
          else d)"

text \<open>One round of the loop over the line, at the point \<open>(x, y)\<close>; the rows are the outer
  loop, the columns the inner one.\<close>

definition smudgeStep :: "canvas \<Rightarrow> real \<Rightarrow> real \<Rightarrow> real \<Rightarrow> real \<Rightarrow> error + canvas" where
  "smudgeStep ctx x y brushSize brushOpacity =
    thenDo (getImageData ctx (x - brushSize / 2) (y - brushSize / 2) brushSize brushSize)
      (\<lambda>imageData.
         let pixels = List.product [0..<iheight imageData] [0..<iwidth imageData] in
         case foldl (smudgeTotal imageData brushSize) (0, 0, 0, 0) pixels of
           (totalRed, totalGreen, totalBlue, count) \<Rightarrow>
             let averageRed = totalRed / count;
                 averageGreen = totalGreen / count;
                 averageBlue = totalBlue / count;
                 d = foldl (smudgeBlend (iwidth imageData) brushSize brushOpacity
                              (averageRed, averageGreen, averageBlue))
                       (idata imageData) pixels
             in Inr (putImageData ctx (imageData\<lparr>idata := d\<rparr>)
                       (x - brushSize / 2) (y - brushSize / 2)))"

text \<open>The loop \<^verbatim>\<open>for (let i = 0; i < length; i++)\<close>.\<close>

function smudgeWalk ::
  "canvas \<Rightarrow> real \<Rightarrow> real \<Rightarrow> real \<Rightarrow> real \<Rightarrow> real \<Rightarrow> real \<Rightarrow> real \<Rightarrow> nat \<Rightarrow> error + canvas" where
  "smudgeWalk ctx x1 y1 ux uy len brushSize brushOpacity i =
    (if real i < len
     then case smudgeStep ctx (x1 + real i * ux) (y1 + real i * uy) brushSize brushOpacity of
            Inl e \<Rightarrow> Inl e
          | Inr ctx' \<Rightarrow> smudgeWalk ctx' x1 y1 ux uy len brushSize brushOpacity (Suc i)
     else Inr ctx)"
  by pat_completeness auto
termination
proof (relation "measure (\<lambda>(ctx, x1, y1, ux, uy, len, brushSize, brushOpacity, i). nat \<lceil>len\<rceil> - i)")
  show "wf (measure (\<lambda>(ctx, x1, y1, ux, uy, len, brushSize, brushOpacity, i). nat \<lceil>len\<rceil> - i))"
    by simp
next
  fix ctx :: canvas and x1 y1 ux uy len brushSize brushOpacity :: real and i :: nat and ctx' :: canvas
  assume "real i < len"
  then have "int i < \<lceil>len\<rceil>" by linarith
  then show "((ctx', x1, y1, ux, uy, len, brushSize, brushOpacity, Suc i),
              (ctx, x1, y1, ux, uy, len, brushSize, brushOpacity, i))
        \<in> measure (\<lambda>(ctx, x1, y1, ux, uy, len, brushSize, brushOpacity, i). nat \<lceil>len\<rceil> - i)"
    by simp
qed

declare smudgeWalk.simps [simp del]

definition smudgeLine ::
  "renderer \<Rightarrow> real \<Rightarrow> real \<Rightarrow> real \<Rightarrow> real \<Rightarrow> real \<Rightarrow> real \<Rightarrow> error + renderer" where
  "smudgeLine s x1 y1 x2 y2 brushSize brushOpacity =
    (let ux0 = x2 - x1;
         uy0 = y2 - y1;
         len = sqrt (ux0 * ux0 + uy0 * uy0);
         ux = ux0 / len;
         uy = uy0 / len
     in thenDo (smudgeWalk (editLayer s) x1 y1 ux uy len brushSize brushOpacity 0)
          (\<lambda>e. render (s\<lparr>editLayer := e\<rparr>)))"

text \<open>
  The stamp as the specification words it. The window has \<open>\<lfloor>brushSize\<rfloor>\<close> rows and
  columns and its corner at the truncated \<open>(x - brushSize / 2, y - brushSize / 2)\<close>; a
  pixel of the window is within the brush when its distance from
  \<open>(brushSize / 2, brushSize / 2)\<close> is at most \<open>brushSize / 2\<close>; the mean of a channel is
  taken over those pixels, a pixel of the window outside the layer counting as
  transparent black; the red, green and blue bytes of those pixels become the stored
  value of \<open>mean * brushOpacity + original * (1 - brushOpacity)\<close>.
\<close>

definition withinBrush :: "real \<Rightarrow> nat \<Rightarrow> nat \<Rightarrow> bool" where
  "withinBrush b x y = (sqrt ((real x - b / 2)\<^sup>2 + (real y - b / 2)\<^sup>2) \<le> b / 2)"

definition windowByte :: "canvas \<Rightarrow> int \<Rightarrow> int \<Rightarrow> nat \<Rightarrow> nat \<Rightarrow> nat \<Rightarrow> nat" where
  "windowByte c x0 y0 x y k =
    (if inCanvas c (x0 + int x) (y0 + int y) then cbyte c (x0 + int x) (y0 + int y) k else 0)"

definition brushPixels :: "real \<Rightarrow> nat \<Rightarrow> (nat \<times> nat) list" where
  "brushPixels b w = filter (\<lambda>(y, x). withinBrush b x y) (List.product [0..<w] [0..<w])"

definition brushMean :: "canvas \<Rightarrow> int \<Rightarrow> int \<Rightarrow> real \<Rightarrow> nat \<Rightarrow> nat \<Rightarrow> real" where
  "brushMean c x0 y0 b w k =
    sum_list (map (\<lambda>(y, x). real (windowByte c x0 y0 x y k)) (brushPixels b w))
      / real (length (brushPixels b w))"

definition smudgeStamp :: "canvas \<Rightarrow> real \<Rightarrow> real \<Rightarrow> real \<Rightarrow> real \<Rightarrow> canvas" where
  "smudgeStamp c x y b opacity =
    (let w = nat \<lfloor>b\<rfloor>; x0 = trunc (x - b / 2); y0 = trunc (y - b / 2) in
     c\<lparr>cbyte := (\<lambda>px py k.
        if inCanvas c px py \<and> x0 \<le> px \<and> px < x0 + int w \<and> y0 \<le> py \<and> py < y0 + int w
           \<and> withinBrush b (nat (px - x0)) (nat (py - y0)) \<and> k < 3
        then toUint8Clamped (brushMean c x0 y0 b w k * opacity
                              + real (cbyte c px py k) * (1 - opacity))
        else cbyte c px py k)\<rparr>)"

subsection \<open>The states the renderer reaches\<close>

text \<open>
  The renderer starts from its constructor. \<^verbatim>\<open>snapshot\<close>, \<^verbatim>\<open>undo\<close>, \<^verbatim>\<open>redo\<close> and
  \<^verbatim>\<open>clearRedoStack\<close> are the only methods that assign the two stacks or the current
  snapshot; \<^verbatim>\<open>setBaseImage\<close>, \<^verbatim>\<open>commitSelection\<close> and \<^verbatim>\<open>expandToOverlay\<close> reach them
  through \<^verbatim>\<open>snapshot\<close>. Every other method (drawing, erasing, smudging, selection, view,
  reference and overlay images, opacities, cursor) leaves the three fields as they are:
  the rule \<open>other\<close>. The assignments of \<^verbatim>\<open>undo\<close> and \<^verbatim>\<open>redo\<close> are made before they render,
  so the rules \<open>undo\<close> and \<open>redo\<close> hold whether \<^verbatim>\<open>render\<close> throws or not.
\<close>

inductive reachable :: "renderer \<Rightarrow> bool" where
  create: "reachable (createRenderer cw ch)"
| snapshot: "reachable s \<Longrightarrow> snapshot s = Inr s' \<Longrightarrow> reachable s'"
| undo: "reachable s \<Longrightarrow> currentSnapshot s = Some cur \<Longrightarrow> length (undoStack s) > 0
         \<Longrightarrow> reachable (undoRestore s cur allowRedo)"
| redo: "reachable s \<Longrightarrow> currentSnapshot s = Some cur \<Longrightarrow> length (redoStack s) > 0
         \<Longrightarrow> reachable (redoRestore s cur)"
| clearRedoStack: "reachable s \<Longrightarrow> reachable (clearRedoStack s)"
| setBaseImage: "reachable s \<Longrightarrow> setBaseImage s img b = Inr s' \<Longrightarrow> reachable s'"
| commitSelection: "reachable s \<Longrightarrow> commitSelection s = Inr s' \<Longrightarrow> reachable s'"
| expandToOverlay: "reachable s \<Longrightarrow> expandToOverlay s = Inr s' \<Longrightarrow> reachable s'"
| other: "reachable s \<Longrightarrow> undoStack s' = undoStack s \<Longrightarrow> redoStack s' = redoStack s
         \<Longrightarrow> currentSnapshot s' = currentSnapshot s \<Longrightarrow> reachable s'"

text \<open>A run of \<open>n\<close> calls of \<^verbatim>\<open>snapshot()\<close> from the constructor; between two calls the
  layers, the selection and the view may change in any way, the history does not.\<close>

inductive snapshotRun :: "nat \<Rightarrow> renderer \<Rightarrow> bool" where
  start: "snapshotRun 0 (createRenderer cw ch)"
| step: "snapshotRun n s \<Longrightarrow> undoStack s1 = undoStack s \<Longrightarrow> redoStack s1 = redoStack s
         \<Longrightarrow> currentSnapshot s1 = currentSnapshot s \<Longrightarrow> snapshot s1 = Inr s'
         \<Longrightarrow> snapshotRun (Suc n) s'"

subsection \<open>Notions of the statements\<close>

text \<open>A rectangle that lies within the image.\<close>

definition withinImage :: "renderer \<Rightarrow> rect \<Rightarrow> bool" where
  "withinImage s r =
    (0 \<le> rect_x r \<and> 0 \<le> rect_y r
     \<and> rect_x r + rect_width r \<le> real (width s)
     \<and> rect_y r + rect_height r \<le> real (height s))"

text \<open>The size of the canvas \<^verbatim>\<open>expandToOverlay\<close> creates, before its conversion to the
  integer width and height of the canvas.\<close>

definition expandedWidth :: "renderer \<Rightarrow> rect \<Rightarrow> real" where
  "expandedWidth s sel =
    max (rect_x sel + rect_width sel) (real (cwidth (baseImageLayer s))) - min 0 (rect_x sel)"

definition expandedHeight :: "renderer \<Rightarrow> rect \<Rightarrow> real" where
  "expandedHeight s sel =
    max (rect_y sel + rect_height sel) (real (cheight (baseImageLayer s))) - min 0 (rect_y sel)"

text \<open>An image of opaque white pixels.\<close>

definition opaqueImage :: "nat \<Rightarrow> nat \<Rightarrow> canvas" where
  "opaqueImage w h = \<lparr>cwidth = w, cheight = h, cbyte = (\<lambda>x y k. 255)\<rparr>"

text \<open>A layer of two by two opaque pixels with the grey values 10, 30, 60 and 90.\<close>

definition fourPixels :: canvas where
  "fourPixels = \<lparr>cwidth = 2, cheight = 2,
     cbyte = (\<lambda>x y k. if k = 3 then 255
                       else if x = 0 \<and> y = 0 then 10
                       else if x = 1 \<and> y = 0 then 30
                       else if x = 0 \<and> y = 1 then 60
                       else 90)\<rparr>"

text \<open>
  The pixels of a layer under the window of a stamp are opaque, and the same for every
  window along a line. The platform keeps the colour of a pixel multiplied by its alpha,
  so it is for opaque pixels that the colour bytes \<^verbatim>\<open>putImageData\<close> writes are the bytes
  \<^verbatim>\<open>getImageData\<close> reads later.
\<close>

definition opaqueWindow :: "canvas \<Rightarrow> real \<Rightarrow> real \<Rightarrow> real \<Rightarrow> bool" where
  "opaqueWindow c x y b =
    (let w = nat \<lfloor>b\<rfloor>; x0 = trunc (x - b / 2); y0 = trunc (y - b / 2) in
     list_all (\<lambda>(wy, wx). inCanvas c (x0 + int wx) (y0 + int wy)
                            \<longrightarrow> cbyte c (x0 + int wx) (y0 + int wy) 3 = 255)
       (List.product [0..<w] [0..<w]))"

definition opaqueAlong :: "canvas \<Rightarrow> real \<Rightarrow> real \<Rightarrow> real \<Rightarrow> real \<Rightarrow> real \<Rightarrow> bool" where
  "opaqueAlong c x1 y1 x2 y2 b =
    (let len = sqrt ((x2 - x1) * (x2 - x1) + (y2 - y1) * (y2 - y1)) in
     list_all (\<lambda>i. opaqueWindow c (x1 + real i * ((x2 - x1) / len))
                                   (y1 + real i * ((y2 - y1) / len)) b)
       [0..<nat \<lceil>len\<rceil>])"

section \<open>Properties\<close>

subsection \<open>Auxiliary facts\<close>

lemma thenDo_Inr [simp]: "thenDo (Inr v) f = f v"
  by (simp add: thenDo_def)

lemma thenDo_Inl [simp]: "thenDo (Inl e) f = Inl e"
  by (simp add: thenDo_def)

lemma trunc_of_nat [simp]: "trunc (real n) = int n"
  by (simp add: trunc_def)

lemma trunc_zero [simp]: "trunc 0 = 0"
  by (simp add: trunc_def)

lemma divmod4:
  fixes n k :: nat
  assumes "k < 4"
  shows "(4 * n + k) div 4 = n" and "(4 * n + k) mod 4 = k"
  using assms by simp_all

lemma pixel_index_in_range:
  fixes i w h :: nat
  assumes "i < 4 * w * h"
  shows "(i div 4) mod w < w" and "(i div 4) div w < h"
proof -
  from assms have w: "0 < w" by (cases w) auto
  then show "(i div 4) mod w < w" by simp
  from assms have "i div 4 < h * w" by (simp add: mult.commute less_mult_imp_div_less)
  then show "(i div 4) div w < h" using w
    by (simp add: less_mult_imp_div_less)
qed

lemma raster_Inr:
  assumes "\<not> degenerate c"
  shows "raster c = Inr \<lparr>iwidth = cwidth c, iheight = cheight c,
           idata = map (\<lambda>i. cbyte c (int ((i div 4) mod cwidth c)) (int ((i div 4) div cwidth c)) (i mod 4))
                     [0..<4 * cwidth c * cheight c]\<rparr>"
  using assms
  by (auto simp: raster_def getImageData_def degenerate_def inCanvas_def Let_def
      dest: pixel_index_in_range)

lemma raster_byte:
  assumes "raster c = Inr snap" "x < cwidth c" "y < cheight c" "k < 4"
  shows "idata snap ! (4 * (y * cwidth c + x) + k) = cbyte c (int x) (int y) k"
proof -
  from assms have nd: "\<not> degenerate c" by (auto simp: degenerate_def)
  have lt: "4 * (y * cwidth c + x) + k < 4 * cwidth c * cheight c"
  proof -
    have "y * cwidth c + x < (y + 1) * cwidth c" using assms by simp
    also have "\<dots> \<le> cheight c * cwidth c" using assms by (intro mult_le_mono1) simp
    finally show ?thesis using assms by (simp add: mult.commute)
  qed
  have d: "(4 * (y * cwidth c + x) + k) div 4 = y * cwidth c + x"
    using assms(4) by (rule divmod4)
  have m: "(4 * (y * cwidth c + x) + k) mod 4 = k"
    using assms(4) by (rule divmod4)
  have "idata snap ! (4 * (y * cwidth c + x) + k)
        = cbyte c (int ((y * cwidth c + x) mod cwidth c)) (int ((y * cwidth c + x) div cwidth c)) k"
    using assms(1) lt unfolding raster_Inr[OF nd] by (auto simp only: d m nth_map_upt sum.inject imagedata.simps add_0)
  then show ?thesis using assms by simp
qed


lemma render_ok: "renderable s \<Longrightarrow> render s = Inr s"
  by (simp add: render_def renderable_def)

text \<open>
  C1. On a base layer of non-zero size, \<^verbatim>\<open>snapshot()\<close> captures the raster of the base
  layer, byte for byte. Without a current snapshot the capture becomes the current
  snapshot and both stacks stay as they are. With a current snapshot \<open>cur\<close>, \<open>cur\<close> is
  pushed on the undo stack, the oldest entry is dropped when the stack would hold more
  than 50 entries, the capture becomes current and the redo stack is emptied.
\<close>

theorem snapshot_captures:
  assumes "\<not> degenerate (baseImageLayer s)"
  shows "\<exists>snap. raster (baseImageLayer s) = Inr snap
      \<and> iwidth snap = cwidth (baseImageLayer s) \<and> iheight snap = cheight (baseImageLayer s)
      \<and> (\<forall>x < cwidth (baseImageLayer s). \<forall>y < cheight (baseImageLayer s). \<forall>k < 4.
            idata snap ! (4 * (y * cwidth (baseImageLayer s) + x) + k)
              = cbyte (baseImageLayer s) (int x) (int y) k)
      \<and> (currentSnapshot s = None \<longrightarrow> snapshot s = Inr (s\<lparr>currentSnapshot := Some snap\<rparr>))
      \<and> (\<forall>cur. currentSnapshot s = Some cur \<longrightarrow>
            snapshot s = Inr (s\<lparr>undoStack := (if length (undoStack s) < 50
                                                 then undoStack s @ [cur]
                                                 else tl (undoStack s @ [cur])),
                                  redoStack := [], currentSnapshot := Some snap\<rparr>))"
proof -
  obtain snap where r: "raster (baseImageLayer s) = Inr snap"
    using raster_Inr[OF assms] by blast
  have dims: "iwidth snap = cwidth (baseImageLayer s)" "iheight snap = cheight (baseImageLayer s)"
    using r raster_Inr[OF assms] by auto
  have bytes: "\<forall>x < cwidth (baseImageLayer s). \<forall>y < cheight (baseImageLayer s). \<forall>k < 4.
            idata snap ! (4 * (y * cwidth (baseImageLayer s) + x) + k)
              = cbyte (baseImageLayer s) (int x) (int y) k"
    using raster_byte[OF r] by blast
  have g: "getImageData (baseImageLayer s) 0 0 (real (cwidth (baseImageLayer s)))
             (real (cheight (baseImageLayer s))) = Inr snap"
    using r by (simp add: raster_def)
  have none: "currentSnapshot s = None \<longrightarrow> snapshot s = Inr (s\<lparr>currentSnapshot := Some snap\<rparr>)"
    by (simp add: snapshot_def g)
  have some: "\<forall>cur. currentSnapshot s = Some cur \<longrightarrow>
            snapshot s = Inr (s\<lparr>undoStack := (if length (undoStack s) < 50
                                                 then undoStack s @ [cur]
                                                 else tl (undoStack s @ [cur])),
                                  redoStack := [], currentSnapshot := Some snap\<rparr>)"
    by (auto simp: snapshot_def g maxSnapshots_def Let_def)
  show ?thesis by (intro exI[of _ snap] conjI r dims bytes none some)
qed

text \<open>
  C7. \<^verbatim>\<open>resetView()\<close>: an image relatively wider than the visible canvas is fitted to
  its width and centred vertically; otherwise (equal aspect ratios included) it is fitted
  to the height and centred horizontally. The sizes are non-zero, so that every quotient
  is a quotient of the source.
\<close>

theorem resetView_fits:
  assumes "renderable s"
    and "0 < width s" and "0 < height s" and "0 < canvasWidth s" and "0 < canvasHeight s"
  shows "(real (width s) / real (height s) > real (canvasWidth s) / real (canvasHeight s) \<longrightarrow>
           resetView s = Inr (s\<lparr>zoom := real (canvasWidth s) / real (width s),
                                 offsetX := 0,
                                 offsetY := (real (height s)
                                    - real (canvasHeight s) / (real (canvasWidth s) / real (width s))) / (- 2)\<rparr>))
       \<and> (\<not> real (width s) / real (height s) > real (canvasWidth s) / real (canvasHeight s) \<longrightarrow>
           resetView s = Inr (s\<lparr>zoom := real (canvasHeight s) / real (height s),
                                 offsetX := (real (width s)
                                    - real (canvasWidth s) / (real (canvasHeight s) / real (height s))) / (- 2),
                                 offsetY := 0\<rparr>))"
proof -
  have r: "\<And>z ox oy. render (s\<lparr>zoom := z, offsetX := ox, offsetY := oy\<rparr>)
             = Inr (s\<lparr>zoom := z, offsetX := ox, offsetY := oy\<rparr>)"
    using assms(1) by (intro render_ok) (simp add: renderable_def)
  show ?thesis
    by (simp add: resetView_def updateZoomAndOffset_def Let_def r)
qed


theorem snapshot_captures_witness:
  "\<not> degenerate (baseImageLayer (createRenderer 800 600))
   \<and> currentSnapshot (createRenderer 800 600) = None
   \<and> (\<exists>snap. raster (baseImageLayer (createRenderer 800 600)) = Inr snap
         \<and> snapshot (createRenderer 800 600)
             = Inr ((createRenderer 800 600)\<lparr>currentSnapshot := Some snap\<rparr>))
   \<and> (\<exists>snap. snapshot ((createRenderer 800 600)
                   \<lparr>undoStack := replicate 50 \<lparr>iwidth = 1, iheight = 1, idata = [0, 0, 0, 255]\<rparr>,
                    redoStack := [\<lparr>iwidth = 1, iheight = 1, idata = [9, 9, 9, 255]\<rparr>],
                    currentSnapshot := Some \<lparr>iwidth = 1, iheight = 1, idata = [7, 7, 7, 255]\<rparr>\<rparr>)
         = Inr ((createRenderer 800 600)
                   \<lparr>undoStack := replicate 49 \<lparr>iwidth = 1, iheight = 1, idata = [0, 0, 0, 255]\<rparr>
                                   @ [\<lparr>iwidth = 1, iheight = 1, idata = [7, 7, 7, 255]\<rparr>],
                    redoStack := [],
                    currentSnapshot := Some snap\<rparr>))"
proof -
  let ?s0 = "createRenderer 800 600"
  let ?s1 = "?s0\<lparr>undoStack := replicate 50 \<lparr>iwidth = 1, iheight = 1, idata = [0, 0, 0, 255]\<rparr>,
                    redoStack := [\<lparr>iwidth = 1, iheight = 1, idata = [9, 9, 9, 255]\<rparr>],
                    currentSnapshot := Some \<lparr>iwidth = 1, iheight = 1, idata = [7, 7, 7, 255]\<rparr>\<rparr>"
  have nd0: "\<not> degenerate (baseImageLayer ?s0)"
    by (simp add: createRenderer_def degenerate_def blankCanvas_def)
  have nd1: "\<not> degenerate (baseImageLayer ?s1)"
    by (simp add: createRenderer_def degenerate_def blankCanvas_def)
  have cur0: "currentSnapshot ?s0 = None"
    by (simp add: createRenderer_def)
  obtain snap0 where a: "raster (baseImageLayer ?s0) = Inr snap0"
      "currentSnapshot ?s0 = None \<longrightarrow> snapshot ?s0 = Inr (?s0\<lparr>currentSnapshot := Some snap0\<rparr>)"
    using snapshot_captures[OF nd0] by (elim exE conjE) (rule that, assumption+)
  obtain snap1 where b: "\<forall>cur. currentSnapshot ?s1 = Some cur \<longrightarrow>
      snapshot ?s1 = Inr (?s1\<lparr>undoStack := (if length (undoStack ?s1) < 50
                                                 then undoStack ?s1 @ [cur]
                                                 else tl (undoStack ?s1 @ [cur])),
                                  redoStack := [], currentSnapshot := Some snap1\<rparr>)"
    using snapshot_captures[OF nd1] by (elim exE conjE) (rule that, assumption+)
  have r49: "tl (replicate 50 x @ [y]) = replicate 49 x @ [y]" for x y :: imagedata
    by (simp add: numeral_eq_Suc)
  from b have "snapshot ?s1 = Inr (?s0
                   \<lparr>undoStack := replicate 49 \<lparr>iwidth = 1, iheight = 1, idata = [0, 0, 0, 255]\<rparr>
                                   @ [\<lparr>iwidth = 1, iheight = 1, idata = [7, 7, 7, 255]\<rparr>],
                    redoStack := [],
                    currentSnapshot := Some snap1\<rparr>)"
    by (simp add: r49)
  with nd0 cur0 a show ?thesis by blast
qed

theorem resetView_fits_witness:
  "resetView ((createRenderer 800 600)\<lparr>width := 1024, height := 512\<rparr>)
     = Inr ((createRenderer 800 600)\<lparr>zoom := 25 / 32, offsetX := 0, offsetY := 128,
                                       width := 1024, height := 512\<rparr>)
   \<and> resetView ((createRenderer 800 600)\<lparr>width := 600, height := 600\<rparr>)
     = Inr ((createRenderer 800 600)\<lparr>zoom := 1, offsetX := 100, offsetY := 0,
                                       width := 600, height := 600\<rparr>)"
proof -
  let ?s = "(createRenderer 800 600)\<lparr>width := 1024, height := 512\<rparr>"
  let ?t = "(createRenderer 800 600)\<lparr>width := 600, height := 600\<rparr>"
  have rs: "renderable ?s" and rt: "renderable ?t"
    by (simp_all add: renderable_def createRenderer_def degenerate_def blankCanvas_def)
  have "resetView ?s = Inr ((createRenderer 800 600)\<lparr>zoom := 25 / 32, offsetX := 0, offsetY := 128,
                                       width := 1024, height := 512\<rparr>)"
    using resetView_fits[OF rs] by (simp add: createRenderer_def)
  moreover have "resetView ?t = Inr ((createRenderer 800 600)\<lparr>zoom := 1, offsetX := 100, offsetY := 0,
                                       width := 600, height := 600\<rparr>)"
    using resetView_fits[OF rt] by (simp add: createRenderer_def)
  ultimately show ?thesis by simp
qed

subsection \<open>The base image and its selection\<close>

lemma snapshot_history_only:
  assumes "\<not> degenerate (baseImageLayer s)"
  shows "\<exists>u r snap. snapshot s = Inr (s\<lparr>undoStack := u, redoStack := r, currentSnapshot := Some snap\<rparr>)
           \<and> raster (baseImageLayer s) = Inr snap"
proof -
  obtain snap where g: "raster (baseImageLayer s) = Inr snap"
    using raster_Inr[OF assms] by blast
  then have g': "getImageData (baseImageLayer s) 0 0 (real (cwidth (baseImageLayer s)))
             (real (cheight (baseImageLayer s))) = Inr snap"
    by (simp add: raster_def)
  show ?thesis
  proof (cases "currentSnapshot s")
    case None
    have "snapshot s = Inr (s\<lparr>undoStack := undoStack s, redoStack := redoStack s,
                              currentSnapshot := Some snap\<rparr>)"
      by (simp add: snapshot_def g' None)
    with g show ?thesis by blast
  next
    case (Some cur)
    have "snapshot s = Inr (s\<lparr>undoStack := (if length (undoStack s) < 50
                                                 then undoStack s @ [cur]
                                                 else tl (undoStack s @ [cur])),
                              redoStack := [], currentSnapshot := Some snap\<rparr>)"
      by (auto simp: snapshot_def g' Some maxSnapshots_def Let_def)
    with g show ?thesis by blast
  qed
qed

lemma snapshot_sets_current:
  assumes "snapshot s = Inr s'"
  shows "\<exists>snap. currentSnapshot s' = Some snap \<and> raster (baseImageLayer s') = Inr snap
          \<and> baseImageLayer s' = baseImageLayer s"
proof -
  from assms have nd: "\<not> degenerate (baseImageLayer s)"
    by (auto simp: snapshot_def getImageData_def degenerate_def thenDo_def split: if_splits)
  from snapshot_history_only[OF nd] assms show ?thesis by auto
qed

lemma resetView_view_only:
  assumes "renderable s"
  shows "\<exists>z ox oy. resetView s = Inr (s\<lparr>zoom := z, offsetX := ox, offsetY := oy\<rparr>)"
proof -
  have r: "\<And>z ox oy. render (s\<lparr>zoom := z, offsetX := ox, offsetY := oy\<rparr>)
             = Inr (s\<lparr>zoom := z, offsetX := ox, offsetY := oy\<rparr>)"
    using assms by (intro render_ok) (simp add: renderable_def)
  show ?thesis
    unfolding resetView_def updateZoomAndOffset_def Let_def r
    by (cases "real (canvasWidth s) / real (canvasHeight s) < real (width s) / real (height s)")
       (simp_all, blast+)
qed

lemma thenDo_eqI:
  assumes "m = Inr v" and "f v = r"
  shows "thenDo m f = r"
  using assms by simp

lemma setBaseImage_ok:
  assumes "\<not> degenerate img" and "\<not> degenerate (backgroundLayer s)"
  shows "\<exists>s'. setBaseImage s img b = Inr s'
      \<and> width s' = cwidth img \<and> height s' = cheight img
      \<and> cwidth (baseImageLayer s') = cwidth img \<and> cheight (baseImageLayer s') = cheight img
      \<and> selectionOverlay s' =
          (if b then Some \<lparr>rect_x = (real (cwidth img) - 1024) / 2,
                            rect_y = (real (cheight img) - 1024) / 2,
                            rect_width = 1024, rect_height = 1024\<rparr>
           else selectionOverlay s)
      \<and> canvasWidth s' = canvasWidth s \<and> canvasHeight s' = canvasHeight s
      \<and> backgroundLayer s' = backgroundLayer s \<and> hasSelection s' = hasSelection s
      \<and> cbyte (baseImageLayer s')
          = (\<lambda>x y k. if inCanvas img x y then sourceOver (cbyte img x y) (\<lambda>k. 0) k else 0)"
proof -
  let ?bl = "blankCanvas (cwidth img) (cheight img)"
  let ?s1 = "s\<lparr>baseImageLayer := ?bl, refImageLayer := ?bl, editLayer := ?bl, overlayLayer := ?bl,
                width := cwidth img, height := cheight img\<rparr>"
  let ?bb = "?bl\<lparr>cbyte := (\<lambda>x y k.
        if inCanvas ?bl x y \<and> inCanvas img (x - trunc 0) (y - trunc 0)
        then sourceOver (cbyte img (x - trunc 0) (y - trunc 0)) (cbyte ?bl x y) k
        else cbyte ?bl x y k)\<rparr>"
  let ?SEL = "Some \<lparr>rect_x = (real (cwidth img) - 1024) / 2,
                     rect_y = (real (cheight img) - 1024) / 2,
                     rect_width = 1024, rect_height = 1024\<rparr>"
  let ?s2 = "if b then ?s1\<lparr>baseImageLayer := ?bb, selectionOverlay := ?SEL\<rparr>
             else ?s1\<lparr>baseImageLayer := ?bb\<rparr>"
  have d: "drawImage (baseImageLayer ?s1) img 0 0 = Inr ?bb"
    using assms(1) by (simp add: drawImage_def)
  have r2: "renderable ?s2"
    using assms by (simp add: renderable_def degenerate_def blankCanvas_def)
  have step2: "(if b then setSelectionOverlay (?s1\<lparr>baseImageLayer := ?bb\<rparr>) ?SEL
                else Inr (?s1\<lparr>baseImageLayer := ?bb\<rparr>)) = Inr ?s2"
    using render_ok[OF r2] by (cases b) (simp_all add: setSelectionOverlay_def)
  obtain z ox oy where rv: "resetView ?s2 = Inr (?s2\<lparr>zoom := z, offsetX := ox, offsetY := oy\<rparr>)"
    using resetView_view_only[OF r2] by blast
  let ?s3 = "?s2\<lparr>zoom := z, offsetX := ox, offsetY := oy\<rparr>"
  have nd3: "\<not> degenerate (baseImageLayer ?s3)"
    using assms(1) by (simp add: degenerate_def blankCanvas_def)
  obtain u r snap where sn: "snapshot ?s3 = Inr (?s3\<lparr>undoStack := u, redoStack := r,
                                                       currentSnapshot := Some snap\<rparr>)"
    using snapshot_history_only[OF nd3] by blast
  let ?s4 = "?s3\<lparr>undoStack := u, redoStack := r, currentSnapshot := Some snap\<rparr>"
  have run: "setBaseImage s img b = Inr ?s4"
    unfolding setBaseImage_def Let_def
    by (rule thenDo_eqI[OF d], rule thenDo_eqI[OF step2], rule thenDo_eqI[OF rv], rule sn)
  have px: "cbyte (baseImageLayer ?s4)
          = (\<lambda>x y k. if inCanvas img x y then sourceOver (cbyte img x y) (\<lambda>k. 0) k else 0)"
    by (auto simp: blankCanvas_def inCanvas_def fun_eq_iff)
  show ?thesis
    by (rule exI[of _ ?s4], intro conjI run px) (simp_all add: blankCanvas_def)
qed

text \<open>
  C5 (as amended). For an image and a visible canvas of non-zero size,
  \<^verbatim>\<open>setBaseImage(image)\<close> installs the selection of 1024 by 1024 whose centre is the centre
  of the image, at \<open>x = (width - 1024) / 2\<close> and \<open>y = (height - 1024) / 2\<close>. Nothing is
  clamped: the selection lies within the image exactly when the image is at least 1024
  in both dimensions.
\<close>

theorem setBaseImage_centres_selection:
  assumes "\<not> degenerate img" and "\<not> degenerate (backgroundLayer s)"
  shows "\<exists>s' sel. setBaseImage s img True = Inr s'
      \<and> width s' = cwidth img \<and> height s' = cheight img
      \<and> selectionOverlay s' = Some sel
      \<and> rect_width sel = 1024 \<and> rect_height sel = 1024
      \<and> rect_x sel + rect_width sel / 2 = real (width s') / 2
      \<and> rect_y sel + rect_height sel / 2 = real (height s') / 2
      \<and> rect_x sel = (real (cwidth img) - 1024) / 2
      \<and> rect_y sel = (real (cheight img) - 1024) / 2
      \<and> withinImage s' sel = (1024 \<le> cwidth img \<and> 1024 \<le> cheight img)"
proof -
  obtain s' where s': "setBaseImage s img True = Inr s'"
      "width s' = cwidth img" "height s' = cheight img"
      "selectionOverlay s' = Some \<lparr>rect_x = (real (cwidth img) - 1024) / 2,
                            rect_y = (real (cheight img) - 1024) / 2,
                            rect_width = 1024, rect_height = 1024\<rparr>"
    using setBaseImage_ok[OF assms, of True] by auto
  let ?sel = "\<lparr>rect_x = (real (cwidth img) - 1024) / 2,
                            rect_y = (real (cheight img) - 1024) / 2,
                            rect_width = 1024, rect_height = 1024\<rparr>"
  have ax: "(0 \<le> (real a - 1024) / 2 \<and> (real a - 1024) / 2 + 1024 \<le> real a) = (1024 \<le> a)"
    for a :: nat
  proof -
    have "(0 \<le> (real a - 1024) / 2 \<and> (real a - 1024) / 2 + 1024 \<le> real a) = (1024 \<le> real a)"
      by (auto simp: field_simps)
    also have "\<dots> = (1024 \<le> a)" by linarith
    finally show ?thesis .
  qed
  have w: "withinImage s' ?sel = (1024 \<le> cwidth img \<and> 1024 \<le> cheight img)"
    unfolding withinImage_def s'(2,3) rect.select_convs
    using ax[of "cwidth img"] ax[of "cheight img"] by blast
  show ?thesis
    using s' w by (intro exI[of _ s'] exI[of _ ?sel]) (simp add: field_simps)
qed

theorem setBaseImage_centres_selection_witness:
  "\<not> degenerate (blankCanvas 2048 1536)
   \<and> \<not> degenerate (backgroundLayer (createRenderer 800 600))
   \<and> (\<exists>s' sel. setBaseImage (createRenderer 800 600) (blankCanvas 2048 1536) True = Inr s'
         \<and> selectionOverlay s' = Some sel
         \<and> rect_x sel = 512 \<and> rect_y sel = 256 \<and> rect_width sel = 1024 \<and> rect_height sel = 1024
         \<and> withinImage s' sel)"
proof -
  have a: "\<not> degenerate (blankCanvas 2048 1536)"
    by (simp add: degenerate_def blankCanvas_def)
  have b: "\<not> degenerate (backgroundLayer (createRenderer 800 600))"
    by (simp add: degenerate_def blankCanvas_def createRenderer_def)
  from setBaseImage_centres_selection[OF a b] a b show ?thesis
    by (auto simp: blankCanvas_def)
qed

text \<open>For an image of 512 by 512 the selection starts at \<open>(-256, -256)\<close> and does not lie
  within the image.\<close>

theorem setBaseImage_small_image_counterexample:
  "\<exists>s' sel. setBaseImage (createRenderer 800 600) (blankCanvas 512 512) True = Inr s'
      \<and> width s' = 512 \<and> height s' = 512
      \<and> selectionOverlay s' = Some sel
      \<and> rect_x sel = - 256 \<and> rect_y sel = - 256
      \<and> rect_width sel = 1024 \<and> rect_height sel = 1024
      \<and> \<not> withinImage s' sel"
proof -
  have a: "\<not> degenerate (blankCanvas 512 512)"
    by (simp add: degenerate_def blankCanvas_def)
  have b: "\<not> degenerate (backgroundLayer (createRenderer 800 600))"
    by (simp add: degenerate_def blankCanvas_def createRenderer_def)
  from setBaseImage_ok[OF a b, of True] show ?thesis
    by (auto simp: blankCanvas_def withinImage_def)
qed

subsection \<open>Masks and erasures\<close>

lemma convertMaskToErasure_pixel:
  "convertMaskToErasure \<lparr>iwidth = w, iheight = h, idata = [r, g, b, a]\<rparr>
     = \<lparr>iwidth = w, iheight = h,
        idata = (if r = 255 then [255, 255, 255, 0] else [0, 0, 0, 255])\<rparr>"
  by (simp add: convertMaskToErasure_def pixelIndices_def maskToErasurePixel_def)

lemma convertErasureToMask_pixel:
  "convertErasureToMask \<lparr>iwidth = w, iheight = h, idata = [r, g, b, a]\<rparr>
     = \<lparr>iwidth = w, iheight = h,
        idata = (if a < 255 then [255, 255, 255, 255] else [0, 0, 0, 255])\<rparr>"
  by (simp add: convertErasureToMask_def pixelIndices_def erasureToMaskPixel_def)

text \<open>
  C9. \<^verbatim>\<open>convertMaskToErasure\<close> and \<^verbatim>\<open>convertErasureToMask\<close> are not inverse to each
  other, in either order: an erased pixel \<open>(0, 0, 0, 0)\<close> comes back as
  \<open>(255, 255, 255, 0)\<close>, an opaque coloured pixel as opaque black, and the mask pixel
  \<open>(255, 0, 0, 255)\<close> as white. The first conversion tests the red channel for equality
  with 255, the second tests the alpha channel for being below 255.
\<close>

theorem conversions_not_inverse:
  "(\<exists>r. convertErasureToMask (convertMaskToErasure r) \<noteq> r)
   \<and> (\<exists>r. convertMaskToErasure (convertErasureToMask r) \<noteq> r)
   \<and> convertMaskToErasure (convertErasureToMask \<lparr>iwidth = 1, iheight = 1, idata = [0, 0, 0, 0]\<rparr>)
       = \<lparr>iwidth = 1, iheight = 1, idata = [255, 255, 255, 0]\<rparr>
   \<and> convertMaskToErasure (convertErasureToMask \<lparr>iwidth = 1, iheight = 1, idata = [200, 10, 10, 255]\<rparr>)
       = \<lparr>iwidth = 1, iheight = 1, idata = [0, 0, 0, 255]\<rparr>
   \<and> convertErasureToMask (convertMaskToErasure \<lparr>iwidth = 1, iheight = 1, idata = [255, 0, 0, 255]\<rparr>)
       = \<lparr>iwidth = 1, iheight = 1, idata = [255, 255, 255, 255]\<rparr>
   \<and> convertMaskToErasure \<lparr>iwidth = 1, iheight = 1, idata = [r, g, b, a]\<rparr>
       = \<lparr>iwidth = 1, iheight = 1,
          idata = (if r = 255 then [255, 255, 255, 0] else [0, 0, 0, 255])\<rparr>
   \<and> convertErasureToMask \<lparr>iwidth = 1, iheight = 1, idata = [r, g, b, a]\<rparr>
       = \<lparr>iwidth = 1, iheight = 1,
          idata = (if a < 255 then [255, 255, 255, 255] else [0, 0, 0, 255])\<rparr>"
proof -
  have 1: "convertErasureToMask (convertMaskToErasure \<lparr>iwidth = 1, iheight = 1, idata = [255, 0, 0, 255]\<rparr>)
       = \<lparr>iwidth = 1, iheight = 1, idata = [255, 255, 255, 255]\<rparr>"
    by (simp add: convertMaskToErasure_pixel convertErasureToMask_pixel)
  have 2: "convertMaskToErasure (convertErasureToMask \<lparr>iwidth = 1, iheight = 1, idata = [0, 0, 0, 0]\<rparr>)
       = \<lparr>iwidth = 1, iheight = 1, idata = [255, 255, 255, 0]\<rparr>"
    by (simp add: convertMaskToErasure_pixel convertErasureToMask_pixel)
  have 3: "convertMaskToErasure (convertErasureToMask \<lparr>iwidth = 1, iheight = 1, idata = [200, 10, 10, 255]\<rparr>)
       = \<lparr>iwidth = 1, iheight = 1, idata = [0, 0, 0, 255]\<rparr>"
    by (simp add: convertMaskToErasure_pixel convertErasureToMask_pixel)
  have e1: "\<exists>r. convertErasureToMask (convertMaskToErasure r) \<noteq> r"
    by (rule exI[of _ "\<lparr>iwidth = 1, iheight = 1, idata = [255, 0, 0, 255]\<rparr>"]) (simp add: convertMaskToErasure_pixel convertErasureToMask_pixel)
  have e2: "\<exists>r. convertMaskToErasure (convertErasureToMask r) \<noteq> r"
    by (rule exI[of _ "\<lparr>iwidth = 1, iheight = 1, idata = [0, 0, 0, 0]\<rparr>"]) (simp add: convertMaskToErasure_pixel convertErasureToMask_pixel)
  show ?thesis
    by (intro conjI e1 e2 1 2 3 convertMaskToErasure_pixel convertErasureToMask_pixel)
qed

subsection \<open>The undo history\<close>

lemma setBaseImage_sets_current:
  assumes "setBaseImage s img b = Inr s'"
  shows "currentSnapshot s' \<noteq> None"
proof -
  from assms obtain s2 where "snapshot s2 = Inr s'"
    by (auto simp: setBaseImage_def thenDo_def Let_def split: sum.splits)
  from snapshot_sets_current[OF this] show ?thesis by auto
qed

lemma commitSelection_sets_current:
  assumes "commitSelection s = Inr s'"
  shows "currentSnapshot s' \<noteq> None"
proof -
  from assms obtain s2 where "snapshot s2 = Inr s'"
    by (auto simp: commitSelection_def thenDo_def Let_def split: sum.splits)
  from snapshot_sets_current[OF this] show ?thesis by auto
qed

lemma expandToOverlay_sets_current:
  assumes "expandToOverlay s = Inr s'"
  shows "currentSnapshot s' \<noteq> None"
proof -
  from assms obtain s2 img b where "setBaseImage s2 img b = Inr s'"
    by (auto simp: expandToOverlay_def thenDo_def Let_def split: sum.splits option.splits)
  from setBaseImage_sets_current[OF this] show ?thesis .
qed

lemma reachable_redo_current:
  assumes "reachable s"
  shows "redoStack s \<noteq> [] \<longrightarrow> currentSnapshot s \<noteq> None"
  using assms
proof (induction rule: reachable.induct)
  case (create cw ch)
  show ?case by (simp add: createRenderer_def)
next
  case (snapshot s s')
  from snapshot_sets_current[OF snapshot.hyps(2)] show ?case by auto
next
  case (undo s cur allowRedo)
  show ?case by (simp add: undoRestore_def Let_def)
next
  case (redo s cur)
  show ?case by (simp add: redoRestore_def Let_def)
next
  case (clearRedoStack s)
  show ?case by (simp add: clearRedoStack_def)
next
  case (setBaseImage s img b s')
  from setBaseImage_sets_current[OF setBaseImage.hyps(2)] show ?case by simp
next
  case (commitSelection s s')
  from commitSelection_sets_current[OF commitSelection.hyps(2)] show ?case by simp
next
  case (expandToOverlay s s')
  from expandToOverlay_sets_current[OF expandToOverlay.hyps(2)] show ?case by simp
next
  case (other s s')
  then show ?case by simp
qed

text \<open>
  C10. In every state the renderer reaches, a non-empty redo stack comes with a current
  snapshot. So \<^verbatim>\<open>redo()\<close> on a non-empty redo stack passes its guard: it pushes the
  current snapshot on the undo stack, pops the redo stack, makes the popped entry current,
  writes it to the base layer and renders.
\<close>

theorem redo_never_blocked:
  assumes "reachable s"
  shows "(redoStack s \<noteq> [] \<longrightarrow> currentSnapshot s \<noteq> None)
       \<and> (redoStack s \<noteq> [] \<longrightarrow>
            (\<exists>cur. currentSnapshot s = Some cur
               \<and> redo s = render (redoRestore s cur)
               \<and> undoStack (redoRestore s cur) = undoStack s @ [cur]
               \<and> redoStack (redoRestore s cur) = butlast (redoStack s)
               \<and> currentSnapshot (redoRestore s cur) = Some (last (redoStack s))
               \<and> baseImageLayer (redoRestore s cur)
                    = putImageData (baseImageLayer s) (last (redoStack s)) 0 0))"
proof -
  have inv: "redoStack s \<noteq> [] \<longrightarrow> currentSnapshot s \<noteq> None"
    using reachable_redo_current[OF assms] .
  have "redoStack s \<noteq> [] \<longrightarrow>
            (\<exists>cur. currentSnapshot s = Some cur
               \<and> redo s = render (redoRestore s cur)
               \<and> undoStack (redoRestore s cur) = undoStack s @ [cur]
               \<and> redoStack (redoRestore s cur) = butlast (redoStack s)
               \<and> currentSnapshot (redoRestore s cur) = Some (last (redoStack s))
               \<and> baseImageLayer (redoRestore s cur)
                    = putImageData (baseImageLayer s) (last (redoStack s)) 0 0)"
  proof
    assume ne: "redoStack s \<noteq> []"
    with inv obtain cur where cur: "currentSnapshot s = Some cur" by auto
    have "redo s = render (redoRestore s cur)"
      using ne cur by (simp add: redo_def)
    then show "\<exists>cur. currentSnapshot s = Some cur
               \<and> redo s = render (redoRestore s cur)
               \<and> undoStack (redoRestore s cur) = undoStack s @ [cur]
               \<and> redoStack (redoRestore s cur) = butlast (redoStack s)
               \<and> currentSnapshot (redoRestore s cur) = Some (last (redoStack s))
               \<and> baseImageLayer (redoRestore s cur)
                    = putImageData (baseImageLayer s) (last (redoStack s)) 0 0"
      using cur by (intro exI[of _ cur]) (simp add: redoRestore_def Let_def)
  qed
  with inv show ?thesis by (rule conjI)
qed


lemma snapshot_None:
  assumes "raster (baseImageLayer s) = Inr snap" and "currentSnapshot s = None"
  shows "snapshot s = Inr (s\<lparr>currentSnapshot := Some snap\<rparr>)"
  using assms by (simp add: snapshot_def raster_def)

lemma snapshot_Some:
  assumes "raster (baseImageLayer s) = Inr snap" and "currentSnapshot s = Some cur"
  shows "snapshot s = Inr (s\<lparr>undoStack := (if length (undoStack s) < 50
                                                 then undoStack s @ [cur]
                                                 else tl (undoStack s @ [cur])),
                            redoStack := [], currentSnapshot := Some snap\<rparr>)"
  using assms by (auto simp: snapshot_def raster_def maxSnapshots_def Let_def)

theorem redo_never_blocked_witness:
  "\<exists>s. reachable s \<and> redoStack s \<noteq> [] \<and> currentSnapshot s \<noteq> None
      \<and> (\<exists>cur. currentSnapshot s = Some cur \<and> redo s = render (redoRestore s cur))"
proof -
  let ?s0 = "createRenderer 800 600"
  have r0: "reachable ?s0" by (rule reachable.create)
  have nd0: "\<not> degenerate (baseImageLayer ?s0)"
    by (simp add: createRenderer_def degenerate_def blankCanvas_def)
  obtain snap where snap: "raster (baseImageLayer ?s0) = Inr snap"
    using raster_Inr[OF nd0] by blast
  let ?s1 = "?s0\<lparr>currentSnapshot := Some snap\<rparr>"
  have s1: "snapshot ?s0 = Inr ?s1"
    using snap by (intro snapshot_None) (simp_all add: createRenderer_def)
  have r1: "reachable ?s1" using r0 s1 by (rule reachable.snapshot)
  let ?s2 = "?s0\<lparr>undoStack := [snap], redoStack := [], currentSnapshot := Some snap\<rparr>"
  have "snapshot ?s1 = Inr (?s1\<lparr>undoStack := (if length (undoStack ?s1) < 50
                                                 then undoStack ?s1 @ [snap]
                                                 else tl (undoStack ?s1 @ [snap])),
                            redoStack := [], currentSnapshot := Some snap\<rparr>)"
    using snap by (intro snapshot_Some) simp_all
  then have s2: "snapshot ?s1 = Inr ?s2"
    by (simp add: createRenderer_def)
  have r2: "reachable ?s2" using r1 s2 by (rule reachable.snapshot)
  have r3: "reachable (undoRestore ?s2 snap True)"
    using r2 by (rule reachable.undo) simp_all
  have ne: "redoStack (undoRestore ?s2 snap True) \<noteq> []"
    by (simp add: undoRestore_def Let_def)
  from redo_never_blocked[OF r3] ne r3 show ?thesis by blast
qed

subsection \<open>Undo followed by redo\<close>

lemma raster_Inr_nondegenerate:
  assumes "raster c = Inr snap"
  shows "\<not> degenerate c"
  using assms by (auto simp: raster_def getImageData_def degenerate_def split: if_splits)

lemma raster_dims:
  assumes "raster c = Inr snap"
  shows "iwidth snap = cwidth c" and "iheight snap = cheight c"
  using assms raster_Inr[OF raster_Inr_nondegenerate[OF assms]] by auto

lemma raster_putImageData:
  assumes "raster c0 = Inr cur" and "cwidth c = cwidth c0" and "cheight c = cheight c0"
  shows "raster (putImageData c cur 0 0) = Inr cur"
proof -
  let ?w = "cwidth c0" and ?h = "cheight c0"
  let ?p = "putImageData c cur 0 0"
  have nd0: "\<not> degenerate c0" using assms(1) by (rule raster_Inr_nondegenerate)
  have pw: "cwidth ?p = ?w" and ph: "cheight ?p = ?h"
    using assms(2,3) by (simp_all add: putImageData_def)
  have ndp: "\<not> degenerate ?p" using nd0 pw ph by (simp add: degenerate_def)
  have cur: "cur = \<lparr>iwidth = ?w, iheight = ?h,
           idata = map (\<lambda>i. cbyte c0 (int ((i div 4) mod ?w)) (int ((i div 4) div ?w)) (i mod 4))
                     [0..<4 * ?w * ?h]\<rparr>"
    using assms(1) raster_Inr[OF nd0] by simp
  have iw: "iwidth cur = ?w" and ih: "iheight cur = ?h"
    by (subst cur, simp)+
  have byte: "cbyte ?p (int ((i div 4) mod ?w)) (int ((i div 4) div ?w)) (i mod 4)
            = cbyte c0 (int ((i div 4) mod ?w)) (int ((i div 4) div ?w)) (i mod 4)"
    if i: "i < 4 * ?w * ?h" for i
  proof -
    have x: "(i div 4) mod ?w < ?w" and y: "(i div 4) div ?w < ?h"
      using pixel_index_in_range[OF i] by simp_all
    have k: "i mod 4 < 4" by simp
    have "cbyte ?p (int ((i div 4) mod ?w)) (int ((i div 4) div ?w)) (i mod 4)
        = idata cur ! (4 * (((i div 4) div ?w) * ?w + (i div 4) mod ?w) + i mod 4)"
      using x y by (simp add: putImageData_def inCanvas_def assms(2,3) iw ih)
    also have "\<dots> = cbyte c0 (int ((i div 4) mod ?w)) (int ((i div 4) div ?w)) (i mod 4)"
      using raster_byte[OF assms(1) x y k] by simp
    finally show ?thesis .
  qed
  have "raster ?p = Inr \<lparr>iwidth = ?w, iheight = ?h,
           idata = map (\<lambda>i. cbyte ?p (int ((i div 4) mod ?w)) (int ((i div 4) div ?w)) (i mod 4))
                     [0..<4 * ?w * ?h]\<rparr>"
    using raster_Inr[OF ndp] by (simp only: pw ph)
  also have "\<dots> = Inr cur"
    by (subst (2) cur) (simp add: byte)
  finally show ?thesis .
qed

lemma undo_redo_in_sync:
  assumes cur: "currentSnapshot s = Some cur"
    and sync: "raster (baseImageLayer s) = Inr cur"
    and ne: "undoStack s \<noteq> []"
    and rn: "renderable s"
  shows "\<exists>s1 s2. undo s True = Inr s1 \<and> redo s1 = Inr s2
          \<and> raster (baseImageLayer s2) = raster (baseImageLayer s)
          \<and> undoStack s2 = undoStack s \<and> redoStack s2 = redoStack s
          \<and> currentSnapshot s2 = currentSnapshot s"
proof -
  let ?s1 = "undoRestore s cur True"
  let ?s2 = "redoRestore ?s1 (last (undoStack s))"
  have w1: "cwidth (baseImageLayer ?s1) = cwidth (baseImageLayer s)"
    and h1: "cheight (baseImageLayer ?s1) = cheight (baseImageLayer s)"
    by (simp_all add: undoRestore_def Let_def putImageData_def clearRect_def)
  have rn1: "renderable ?s1"
    using rn w1 h1 by (simp add: renderable_def degenerate_def undoRestore_def Let_def)
  have u: "undo s True = Inr ?s1"
    using cur ne render_ok[OF rn1] by (simp add: undo_def)
  have cur1: "currentSnapshot ?s1 = Some (last (undoStack s))"
    and redo1: "redoStack ?s1 = redoStack s @ [cur]"
    and undo1: "undoStack ?s1 = butlast (undoStack s)"
    by (simp_all add: undoRestore_def Let_def)
  have b2: "baseImageLayer ?s2 = putImageData (baseImageLayer ?s1) cur 0 0"
    by (simp add: redoRestore_def Let_def redo1)
  have rn2: "renderable ?s2"
    using rn1 by (simp add: renderable_def degenerate_def b2 putImageData_def)
       (simp add: redoRestore_def Let_def)
  have r: "redo ?s1 = Inr ?s2"
    using render_ok[OF rn2] by (simp add: redo_def cur1 redo1)
  have ras: "raster (baseImageLayer ?s2) = raster (baseImageLayer s)"
    unfolding b2 sync using raster_putImageData[OF sync w1 h1] .
  have rest: "undoStack ?s2 = undoStack s" "redoStack ?s2 = redoStack s"
      "currentSnapshot ?s2 = currentSnapshot s"
    using ne by (simp_all add: redoRestore_def Let_def cur1 redo1 undo1 cur)
  show ?thesis
    by (intro exI[of _ ?s1] exI[of _ ?s2] conjI u r ras rest)
qed

lemma snapshotRun_in_sync:
  assumes "snapshotRun n s" and "0 < n"
  shows "\<exists>cur. currentSnapshot s = Some cur \<and> raster (baseImageLayer s) = Inr cur"
  using assms
proof (cases rule: snapshotRun.cases)
  case (start cw ch)
  with assms(2) show ?thesis by simp
next
  case (step m s0 s1)
  from snapshot_sets_current[OF step(6)] show ?thesis by auto
qed

text \<open>
  C2. In a state reached by up to 50 calls of \<^verbatim>\<open>snapshot()\<close>, with a non-empty undo
  stack, no active selection and layers that can be rendered, \<^verbatim>\<open>undo()\<close> followed by
  \<^verbatim>\<open>redo()\<close> completes and the raster of the base layer is, byte for byte, the raster
  before the \<^verbatim>\<open>undo()\<close>.
\<close>

theorem undo_redo_restores_raster:
  assumes "snapshotRun n s" and "n \<le> 50" and "undoStack s \<noteq> []"
    and "\<not> hasSelection s" and "renderable s"
  shows "\<exists>s1 s2. undo s True = Inr s1 \<and> redo s1 = Inr s2
          \<and> raster (baseImageLayer s2) = raster (baseImageLayer s)"
proof -
  have "0 < n"
  proof (rule ccontr)
    assume "\<not> 0 < n"
    then have "n = 0" by simp
    with assms(1) have "undoStack s = []"
      by (cases rule: snapshotRun.cases) (simp_all add: createRenderer_def)
    with assms(3) show False by simp
  qed
  from snapshotRun_in_sync[OF assms(1) this] obtain cur
    where "currentSnapshot s = Some cur" "raster (baseImageLayer s) = Inr cur" by blast
  from undo_redo_in_sync[OF this assms(3) assms(5)] show ?thesis by blast
qed


theorem undo_redo_restores_raster_witness:
  "\<exists>s. snapshotRun 2 s \<and> (2::nat) \<le> 50 \<and> undoStack s \<noteq> [] \<and> \<not> hasSelection s
      \<and> renderable s
      \<and> (\<exists>s1 s2. undo s True = Inr s1 \<and> redo s1 = Inr s2
            \<and> baseImageLayer s1 \<noteq> baseImageLayer s
            \<and> raster (baseImageLayer s2) = raster (baseImageLayer s))"
proof -
  let ?s0 = "createRenderer 800 600"
  let ?white = "\<lparr>cwidth = 300, cheight = 150, cbyte = (\<lambda>x y k. 255)\<rparr>"
  have nd0: "\<not> degenerate (baseImageLayer ?s0)"
    by (simp add: createRenderer_def degenerate_def blankCanvas_def)
  obtain snap where snap: "raster (baseImageLayer ?s0) = Inr snap"
    using raster_Inr[OF nd0] by blast
  have ndw: "\<not> degenerate ?white" by (simp add: degenerate_def)
  obtain snapW where snapW: "raster ?white = Inr snapW"
    using raster_Inr[OF ndw] by blast
  let ?s1 = "?s0\<lparr>currentSnapshot := Some snap\<rparr>"
  have s1: "snapshot ?s0 = Inr ?s1"
    using snap by (intro snapshot_None) (simp_all add: createRenderer_def)
  have run1: "snapshotRun (Suc 0) ?s1"
    by (rule snapshotRun.step[OF snapshotRun.start[of 800 600] refl refl refl s1])
  let ?e = "?s1\<lparr>baseImageLayer := ?white\<rparr>"
  let ?s2 = "?e\<lparr>undoStack := [snap], redoStack := [], currentSnapshot := Some snapW\<rparr>"
  have "snapshot ?e = Inr (?e\<lparr>undoStack := (if length (undoStack ?e) < 50
                                                 then undoStack ?e @ [snap]
                                                 else tl (undoStack ?e @ [snap])),
                            redoStack := [], currentSnapshot := Some snapW\<rparr>)"
    using snapW by (intro snapshot_Some) simp_all
  then have s2: "snapshot ?e = Inr ?s2"
    by (simp add: createRenderer_def)
  have run2: "snapshotRun 2 ?s2"
    using snapshotRun.step[OF run1 _ _ _ s2] by (simp add: numeral_2_eq_2)
  have a: "undoStack ?s2 \<noteq> []" "\<not> hasSelection ?s2" "renderable ?s2" "(2::nat) \<le> 50"
    by (simp_all add: createRenderer_def renderable_def degenerate_def blankCanvas_def)
  obtain t1 t2 where t: "undo ?s2 True = Inr t1" "redo t1 = Inr t2"
      "raster (baseImageLayer t2) = raster (baseImageLayer ?s2)"
    using undo_redo_restores_raster[OF run2 a(4) a(1) a(2) a(3)] by blast
  have t1: "t1 = undoRestore ?s2 snapW True"
    using t(1) by (simp add: undo_def render_def split: if_splits)
  have dims: "iwidth snap = 300" "iheight snap = 150"
    using raster_dims[OF snap] by (simp_all add: createRenderer_def blankCanvas_def)
  have "cbyte (baseImageLayer t1) 0 0 3 = idata snap ! 3"
    unfolding t1 by (simp add: undoRestore_def Let_def putImageData_def clearRect_def inCanvas_def
        createRenderer_def dims)
  also have "idata snap ! 3 = 0"
    using raster_byte[OF snap, of 0 0 3] by (simp add: createRenderer_def blankCanvas_def)
  finally have "cbyte (baseImageLayer t1) 0 0 3 \<noteq> cbyte (baseImageLayer ?s2) 0 0 3"
    by simp
  then have d: "baseImageLayer t1 \<noteq> baseImageLayer ?s2" by metis
  from run2 a t d show ?thesis by blast
qed

subsection \<open>Errors of the selection\<close>

lemma trunc_eq_0_iff: "(trunc r = 0) = (\<bar>r\<bar> < 1)"
proof (cases "0 \<le> r")
  case True
  then show ?thesis by (auto simp: trunc_def floor_eq_iff)
next
  case False
  then show ?thesis by (auto simp: trunc_def ceiling_eq_iff)
qed

lemma thenDo_Inl_cases:
  assumes "thenDo m f = Inl e"
  shows "m = Inl e \<or> (\<exists>v. m = Inr v \<and> f v = Inl e)"
  using assms by (cases m) (simp_all add: thenDo_def)

lemma drawImage_error: "drawImage c img dx dy = Inl e \<Longrightarrow> e = InvalidStateError"
  by (simp add: drawImage_def split: if_splits)

lemma render_error: "render s = Inl e \<Longrightarrow> e = InvalidStateError"
  by (simp add: render_def split: if_splits)

lemma getImageData_error: "getImageData c sx sy sw sh = Inl e \<Longrightarrow> e = IndexSizeError"
  by (simp add: getImageData_def Let_def split: if_splits)

lemma snapshot_error: "snapshot s = Inl e \<Longrightarrow> e = IndexSizeError"
  by (auto simp: snapshot_def Let_def dest!: thenDo_Inl_cases getImageData_error
      split: option.splits)

lemma resetView_error: "resetView s = Inl e \<Longrightarrow> e = InvalidStateError"
  by (auto simp: resetView_def updateZoomAndOffset_def Let_def dest: render_error
      split: if_splits)

lemma setBaseImage_error:
  assumes "setBaseImage s img b = Inl e"
  shows "e \<noteq> NoSelectionOverlay"
proof -
  from assms have "e = InvalidStateError \<or> e = IndexSizeError"
    unfolding setBaseImage_def Let_def
    by (auto dest!: thenDo_Inl_cases
        dest: drawImage_error render_error resetView_error snapshot_error
        simp: setSelectionOverlay_def split: if_splits)
  then show ?thesis by auto
qed

lemma erasePoint_Some:
  assumes "selectionOverlay s = Some sel"
  shows "(trunc brushSize = 0 \<longrightarrow> erasePoint s brushx brushy brushSize = Inl IndexSizeError)
       \<and> (trunc brushSize \<noteq> 0 \<longrightarrow> (\<exists>s'. erasePoint s brushx brushy brushSize = Inr s'))"
  using assms by (simp add: erasePoint_def getImageData_def Let_def)

lemma toCanvasSize_pos:
  assumes "1 \<le> r" and "r < 2 ^ 32" and "0 < dflt"
  shows "0 < toCanvasSize dflt r"
proof -
  have t: "trunc r = \<lfloor>r\<rfloor>" using assms(1) by (simp add: trunc_def)
  have "1 \<le> \<lfloor>r\<rfloor>" using assms(1) by (simp add: le_floor_iff)
  moreover have "\<lfloor>r\<rfloor> < 2 ^ 32" using assms(2) by (simp add: floor_less_iff)
  ultimately have "\<lfloor>r\<rfloor> mod 2 ^ 32 = \<lfloor>r\<rfloor>" by simp
  with \<open>1 \<le> \<lfloor>r\<rfloor>\<close> assms(3) show ?thesis by (simp add: toCanvasSize_def t Let_def)
qed

lemma expandToOverlay_ok:
  assumes sel: "selectionOverlay s = Some sel"
    and nb: "\<not> degenerate (baseImageLayer s)" and ng: "\<not> degenerate (backgroundLayer s)"
    and w: "expandedWidth s sel < 2 ^ 32" and h: "expandedHeight s sel < 2 ^ 32"
  shows "\<exists>s'. expandToOverlay s = Inr s'"
proof -
  let ?w = "max (rect_x sel + rect_width sel) (real (cwidth (baseImageLayer s))) - min 0 (rect_x sel)"
  let ?h = "max (rect_y sel + rect_height sel) (real (cheight (baseImageLayer s))) - min 0 (rect_y sel)"
  let ?new = "blankCanvas (toCanvasSize 300 ?w) (toCanvasSize 150 ?h)"
  have "1 \<le> real (cwidth (baseImageLayer s))" "1 \<le> real (cheight (baseImageLayer s))"
    using nb by (simp_all add: degenerate_def Suc_leI)
  then have "1 \<le> ?w" "1 \<le> ?h" by linarith+
  then have pos: "0 < toCanvasSize 300 ?w" "0 < toCanvasSize 150 ?h"
    using w h by (simp_all add: toCanvasSize_pos expandedWidth_def expandedHeight_def)
  obtain drawn where d: "drawImage ?new (baseImageLayer s)
        (max 0 (rect_x sel * (- 1))) (max 0 (rect_y sel * (- 1))) = Inr drawn"
      and dims: "cwidth drawn = toCanvasSize 300 ?w" "cheight drawn = toCanvasSize 150 ?h"
    using nb by (simp add: drawImage_def blankCanvas_def)
  have nd: "\<not> degenerate drawn" using pos dims by (simp add: degenerate_def)
  let ?sel2 = "let sel1 = (if rect_x sel < 0 then sel\<lparr>rect_x := 0\<rparr> else sel)
               in (if rect_y sel1 < 0 then sel1\<lparr>rect_y := 0\<rparr> else sel1)"
  have ng': "\<not> degenerate (backgroundLayer (s\<lparr>selectionOverlay := Some ?sel2\<rparr>))"
    using ng by simp
  obtain s' where "setBaseImage (s\<lparr>selectionOverlay := Some ?sel2\<rparr>) drawn False = Inr s'"
    using setBaseImage_ok[OF nd ng', of False] by blast
  then have "expandToOverlay s = Inr s'"
    using d by (simp add: expandToOverlay_def sel Let_def)
  then show ?thesis by blast
qed

text \<open>
  C8 (as amended). \<^verbatim>\<open>erasePoint\<close> and \<^verbatim>\<open>expandToOverlay\<close> throw the error
  \<^verbatim>\<open>No selection overlay\<close> exactly when no selection is set. With a selection set,
  \<^verbatim>\<open>erasePoint\<close> completes exactly when the brush window is not empty
  (\<open>\<bar>brushSize\<bar> \<ge> 1\<close>); for an empty window \<^verbatim>\<open>getImageData\<close> throws IndexSizeError.
  With a selection set, \<^verbatim>\<open>expandToOverlay\<close> completes when the base layer and the
  background layer have non-zero size and the grown image is narrower and lower than
  \<open>2^32\<close>.
\<close>

theorem selection_errors:
  "(erasePoint s brushx brushy brushSize = Inl NoSelectionOverlay) = (selectionOverlay s = None)
   \<and> (expandToOverlay s = Inl NoSelectionOverlay) = (selectionOverlay s = None)
   \<and> (selectionOverlay s \<noteq> None \<longrightarrow>
        (\<exists>s'. erasePoint s brushx brushy brushSize = Inr s') = (1 \<le> \<bar>brushSize\<bar>))
   \<and> (selectionOverlay s \<noteq> None \<longrightarrow> \<bar>brushSize\<bar> < 1 \<longrightarrow>
        erasePoint s brushx brushy brushSize = Inl IndexSizeError)
   \<and> (\<forall>sel. selectionOverlay s = Some sel \<longrightarrow>
        \<not> degenerate (baseImageLayer s) \<longrightarrow> \<not> degenerate (backgroundLayer s) \<longrightarrow>
        expandedWidth s sel < 2 ^ 32 \<longrightarrow> expandedHeight s sel < 2 ^ 32 \<longrightarrow>
        (\<exists>s'. expandToOverlay s = Inr s'))"
proof -
  have e1: "(erasePoint s brushx brushy brushSize = Inl NoSelectionOverlay)
            = (selectionOverlay s = None)"
  proof (cases "selectionOverlay s")
    case None
    then show ?thesis by (simp add: erasePoint_def)
  next
    case (Some sel)
    from erasePoint_Some[OF Some, of brushSize brushx brushy] Some show ?thesis
      by (cases "trunc brushSize = 0") auto
  qed
  have e2: "(expandToOverlay s = Inl NoSelectionOverlay) = (selectionOverlay s = None)"
  proof (cases "selectionOverlay s")
    case None
    then show ?thesis by (simp add: expandToOverlay_def)
  next
    case (Some sel)
    have "expandToOverlay s \<noteq> Inl NoSelectionOverlay"
    proof
      assume "expandToOverlay s = Inl NoSelectionOverlay"
      then show False
        unfolding expandToOverlay_def Some option.case Let_def
        by (auto dest!: thenDo_Inl_cases dest: drawImage_error setBaseImage_error)
    qed
    with Some show ?thesis by simp
  qed
  have e3: "selectionOverlay s \<noteq> None \<longrightarrow>
        (\<exists>s'. erasePoint s brushx brushy brushSize = Inr s') = (1 \<le> \<bar>brushSize\<bar>)"
  proof
    assume "selectionOverlay s \<noteq> None"
    then obtain sel where sel: "selectionOverlay s = Some sel" by auto
    from erasePoint_Some[OF sel, of brushSize brushx brushy]
    show "(\<exists>s'. erasePoint s brushx brushy brushSize = Inr s') = (1 \<le> \<bar>brushSize\<bar>)"
      unfolding trunc_eq_0_iff by (cases "\<bar>brushSize\<bar> < 1") auto
  qed
  have e4: "selectionOverlay s \<noteq> None \<longrightarrow> \<bar>brushSize\<bar> < 1 \<longrightarrow>
        erasePoint s brushx brushy brushSize = Inl IndexSizeError"
  proof (intro impI)
    assume "selectionOverlay s \<noteq> None" and b: "\<bar>brushSize\<bar> < 1"
    then obtain sel where sel: "selectionOverlay s = Some sel" by auto
    from erasePoint_Some[OF sel, of brushSize brushx brushy] b
    show "erasePoint s brushx brushy brushSize = Inl IndexSizeError"
      unfolding trunc_eq_0_iff by simp
  qed
  have e5: "\<forall>sel. selectionOverlay s = Some sel \<longrightarrow>
        \<not> degenerate (baseImageLayer s) \<longrightarrow> \<not> degenerate (backgroundLayer s) \<longrightarrow>
        expandedWidth s sel < 2 ^ 32 \<longrightarrow> expandedHeight s sel < 2 ^ 32 \<longrightarrow>
        (\<exists>s'. expandToOverlay s = Inr s')"
    using expandToOverlay_ok by blast
  show ?thesis by (intro conjI e1 e2 e3 e4 e5)
qed


theorem selection_errors_witness:
  "selectionOverlay ((createRenderer 800 600)
       \<lparr>selectionOverlay := Some \<lparr>rect_x = - 10, rect_y = 0, rect_width = 400, rect_height = 100\<rparr>\<rparr>)
     = Some \<lparr>rect_x = - 10, rect_y = 0, rect_width = 400, rect_height = 100\<rparr>
   \<and> expandedWidth ((createRenderer 800 600)
       \<lparr>selectionOverlay := Some \<lparr>rect_x = - 10, rect_y = 0, rect_width = 400, rect_height = 100\<rparr>\<rparr>)
       \<lparr>rect_x = - 10, rect_y = 0, rect_width = 400, rect_height = 100\<rparr> = 400
   \<and> (\<exists>s'. expandToOverlay ((createRenderer 800 600)
       \<lparr>selectionOverlay := Some \<lparr>rect_x = - 10, rect_y = 0, rect_width = 400, rect_height = 100\<rparr>\<rparr>)
         = Inr s')
   \<and> (\<exists>s'. erasePoint ((createRenderer 800 600)
       \<lparr>selectionOverlay := Some \<lparr>rect_x = - 10, rect_y = 0, rect_width = 400, rect_height = 100\<rparr>\<rparr>)
         5 5 2 = Inr s')
   \<and> erasePoint ((createRenderer 800 600)
       \<lparr>selectionOverlay := Some \<lparr>rect_x = - 10, rect_y = 0, rect_width = 400, rect_height = 100\<rparr>\<rparr>)
         5 5 (1 / 2) = Inl IndexSizeError
   \<and> erasePoint (createRenderer 800 600) 5 5 2 = Inl NoSelectionOverlay
   \<and> expandToOverlay (createRenderer 800 600) = Inl NoSelectionOverlay"
proof -
  let ?sel = "\<lparr>rect_x = - 10, rect_y = 0, rect_width = 400, rect_height = 100\<rparr>"
  let ?S = "(createRenderer 800 600)\<lparr>selectionOverlay := Some ?sel\<rparr>"
  have sel: "selectionOverlay ?S = Some ?sel" by simp
  have nd: "\<not> degenerate (baseImageLayer ?S)" "\<not> degenerate (backgroundLayer ?S)"
    by (simp_all add: createRenderer_def degenerate_def blankCanvas_def)
  have w: "expandedWidth ?S ?sel = 400" and h: "expandedHeight ?S ?sel = 150"
    by (simp_all add: expandedWidth_def expandedHeight_def createRenderer_def blankCanvas_def)
  have none: "selectionOverlay (createRenderer 800 600) = None"
    by (simp add: createRenderer_def)
  have a: "\<exists>s'. expandToOverlay ?S = Inr s'"
    using selection_errors[of ?S 5 5 2] sel nd w h by simp
  have b: "\<exists>s'. erasePoint ?S 5 5 2 = Inr s'"
    using selection_errors[of ?S 5 5 2] sel by simp
  have c: "erasePoint ?S 5 5 (1 / 2) = Inl IndexSizeError"
    using selection_errors[of ?S 5 5 "1 / 2"] sel by simp
  have d: "erasePoint (createRenderer 800 600) 5 5 2 = Inl NoSelectionOverlay"
    using selection_errors[of "createRenderer 800 600" 5 5 2] none by simp
  have e: "expandToOverlay (createRenderer 800 600) = Inl NoSelectionOverlay"
    using selection_errors[of "createRenderer 800 600" 5 5 2] none by simp
  show ?thesis by (intro conjI sel w a b c d e)
qed

text \<open>With a selection set and a brush of size zero, \<^verbatim>\<open>erasePoint\<close> throws.\<close>

theorem erasePoint_empty_window_counterexample:
  "selectionOverlay ((createRenderer 800 600)
       \<lparr>selectionOverlay := Some \<lparr>rect_x = 0, rect_y = 0, rect_width = 300, rect_height = 150\<rparr>\<rparr>)
     \<noteq> None
   \<and> erasePoint ((createRenderer 800 600)
       \<lparr>selectionOverlay := Some \<lparr>rect_x = 0, rect_y = 0, rect_width = 300, rect_height = 150\<rparr>\<rparr>)
       5 5 0 = Inl IndexSizeError"
  by (simp add: erasePoint_def getImageData_def)

subsection \<open>Erasing near the edges of the selection\<close>

lemma trunc_numeral [simp]: "trunc (numeral n) = numeral n"
  by (simp add: trunc_def)

lemma trunc_one [simp]: "trunc 1 = 1"
  by (simp add: trunc_def)

lemma upt_0_4: "[0..<4] = [0, 1, 2, 3]"
  by code_simp

lemma upt_0_16: "[0..<16] = [0, 1, 2, 3, 4, 5, 6, 7, 8, 9, 10, 11, 12, 13, 14, 15]"
  by code_simp

lemma loaded_1024:
  assumes "0 < ch"
  shows "\<exists>s. setBaseImage (createRenderer 1920 ch) (opaqueImage 1024 1024) True = Inr s
      \<and> selectionOverlay s
          = Some \<lparr>rect_x = 0, rect_y = 0, rect_width = 1024, rect_height = 1024\<rparr>
      \<and> width s = 1024 \<and> height s = 1024 \<and> canvasHeight s = ch
      \<and> cwidth (baseImageLayer s) = 1024 \<and> cheight (baseImageLayer s) = 1024
      \<and> cbyte (baseImageLayer s) = (\<lambda>x y k. if inCanvas (opaqueImage 1024 1024) x y then 255 else 0)"
proof -
  have a: "\<not> degenerate (opaqueImage 1024 1024)"
    by (simp add: degenerate_def opaqueImage_def)
  have b: "\<not> degenerate (backgroundLayer (createRenderer 1920 ch))"
    using assms by (simp add: degenerate_def blankCanvas_def createRenderer_def)
  have so: "sourceOver (cbyte (opaqueImage 1024 1024) x y) (\<lambda>k. 0) k = 255" for x y k
    by (simp add: sourceOver_def opaqueImage_def)
  from setBaseImage_ok[OF a b, of True] obtain s
    where s: "setBaseImage (createRenderer 1920 ch) (opaqueImage 1024 1024) True = Inr s"
      "width s = cwidth (opaqueImage 1024 1024)" "height s = cheight (opaqueImage 1024 1024)"
      "cwidth (baseImageLayer s) = cwidth (opaqueImage 1024 1024)"
      "cheight (baseImageLayer s) = cheight (opaqueImage 1024 1024)"
      "selectionOverlay s = Some \<lparr>rect_x = (real (cwidth (opaqueImage 1024 1024)) - 1024) / 2,
                            rect_y = (real (cheight (opaqueImage 1024 1024)) - 1024) / 2,
                            rect_width = 1024, rect_height = 1024\<rparr>"
      "canvasHeight s = canvasHeight (createRenderer 1920 ch)"
      "cbyte (baseImageLayer s)
          = (\<lambda>x y k. if inCanvas (opaqueImage 1024 1024) x y
                      then sourceOver (cbyte (opaqueImage 1024 1024) x y) (\<lambda>k. 0) k else 0)"
    by auto
  have dims: "cwidth (opaqueImage 1024 1024) = 1024" "cheight (opaqueImage 1024 1024) = 1024"
    by (simp_all add: opaqueImage_def)
  show ?thesis
    using s unfolding so dims
    by (intro exI[of _ s]) (simp add: createRenderer_def)
qed

lemma erase_near_right_edge:
  assumes "selectionOverlay s
          = Some \<lparr>rect_x = 0, rect_y = 0, rect_width = 1024, rect_height = 1024\<rparr>"
      "width s = 1024"
      "cwidth (baseImageLayer s) = 1024" "cheight (baseImageLayer s) = 1024"
      "cbyte (baseImageLayer s) = (\<lambda>x y k. if inCanvas (opaqueImage 1024 1024) x y then 255 else 0)"
  shows "\<exists>s1. erasePoint s 1020 512 2 = Inr s1 \<and> cbyte (baseImageLayer s1) 1020 512 3 = 0"
  using assms
  by (simp add: erasePoint_def getImageData_def Let_def pixelIndices_def erasePixel_def jsRem_def
      putImageData_def inCanvas_def opaqueImage_def upt_0_4 upt_0_16 trunc_def)

lemma erase_near_bottom_edge:
  assumes "selectionOverlay s
          = Some \<lparr>rect_x = 0, rect_y = 0, rect_width = 1024, rect_height = 1024\<rparr>"
      "width s = 1024"
      "cwidth (baseImageLayer s) = 1024" "cheight (baseImageLayer s) = 1024"
      "cbyte (baseImageLayer s) = (\<lambda>x y k. if inCanvas (opaqueImage 1024 1024) x y then 255 else 0)"
  shows "\<exists>s1. erasePoint s 512 1020 2 = Inr s1
      \<and> cbyte (baseImageLayer s1) 512 1020 3 = (if 1024 < canvasHeight s then 255 else 0)"
  using assms
  by (simp add: erasePoint_def getImageData_def Let_def pixelIndices_def erasePixel_def jsRem_def
      putImageData_def inCanvas_def opaqueImage_def upt_0_4 upt_0_16 trunc_def)

text \<open>
  C3 (a defect of the code). An opaque image of 1024 by 1024 is loaded; the selection is
  the whole image, so every edge of the selection is an edge of the image and no margin
  applies. In a viewport 1080 high, \<^verbatim>\<open>erasePoint(1020, 512, 2)\<close> erases the pixel four
  units from the right edge, and \<^verbatim>\<open>erasePoint(512, 1020, 2)\<close> leaves the pixel four units
  from the bottom edge opaque: the bottom edge is compared with the height of the
  viewport, where the right edge is compared with the width of the image. In a viewport as
  high as the image the same call erases the pixel.
\<close>

theorem erasePoint_bottom_margin_follows_viewport:
  "\<exists>s s1 s2. setBaseImage (createRenderer 1920 1080) (opaqueImage 1024 1024) True = Inr s
      \<and> selectionOverlay s
          = Some \<lparr>rect_x = 0, rect_y = 0, rect_width = 1024, rect_height = 1024\<rparr>
      \<and> width s = 1024 \<and> height s = 1024 \<and> canvasHeight s = 1080
      \<and> cbyte (baseImageLayer s) 1020 512 3 = 255
      \<and> cbyte (baseImageLayer s) 512 1020 3 = 255
      \<and> erasePoint s 1020 512 2 = Inr s1 \<and> cbyte (baseImageLayer s1) 1020 512 3 = 0
      \<and> erasePoint s 512 1020 2 = Inr s2 \<and> cbyte (baseImageLayer s2) 512 1020 3 = 255
      \<and> (\<exists>t t2. setBaseImage (createRenderer 1920 1024) (opaqueImage 1024 1024) True = Inr t
            \<and> canvasHeight t = 1024
            \<and> erasePoint t 512 1020 2 = Inr t2 \<and> cbyte (baseImageLayer t2) 512 1020 3 = 0)"
proof -
  obtain s where s: "setBaseImage (createRenderer 1920 1080) (opaqueImage 1024 1024) True = Inr s"
      "selectionOverlay s
          = Some \<lparr>rect_x = 0, rect_y = 0, rect_width = 1024, rect_height = 1024\<rparr>"
      "width s = 1024" "height s = 1024" "canvasHeight s = 1080"
      "cwidth (baseImageLayer s) = 1024" "cheight (baseImageLayer s) = 1024"
      "cbyte (baseImageLayer s) = (\<lambda>x y k. if inCanvas (opaqueImage 1024 1024) x y then 255 else 0)"
    using loaded_1024[of 1080] by auto
  obtain t where t: "setBaseImage (createRenderer 1920 1024) (opaqueImage 1024 1024) True = Inr t"
      "selectionOverlay t
          = Some \<lparr>rect_x = 0, rect_y = 0, rect_width = 1024, rect_height = 1024\<rparr>"
      "width t = 1024" "height t = 1024" "canvasHeight t = 1024"
      "cwidth (baseImageLayer t) = 1024" "cheight (baseImageLayer t) = 1024"
      "cbyte (baseImageLayer t) = (\<lambda>x y k. if inCanvas (opaqueImage 1024 1024) x y then 255 else 0)"
    using loaded_1024[of 1024] by auto
  obtain s1 where s1: "erasePoint s 1020 512 2 = Inr s1" "cbyte (baseImageLayer s1) 1020 512 3 = 0"
    using erase_near_right_edge[OF s(2,3,6,7,8)] by blast
  obtain s2 where s2: "erasePoint s 512 1020 2 = Inr s2" "cbyte (baseImageLayer s2) 512 1020 3 = 255"
    using erase_near_bottom_edge[OF s(2,3,6,7,8)] s(5) by auto
  obtain t2 where t2: "erasePoint t 512 1020 2 = Inr t2" "cbyte (baseImageLayer t2) 512 1020 3 = 0"
    using erase_near_bottom_edge[OF t(2,3,6,7,8)] t(5) by auto
  have px: "cbyte (baseImageLayer s) 1020 512 3 = 255" "cbyte (baseImageLayer s) 512 1020 3 = 255"
    by (simp_all add: s(8) inCanvas_def opaqueImage_def)
  from s(1-5) px s1 s2 t(1,5) t2 show ?thesis by blast
qed

subsection \<open>Committing the edit layer\<close>

lemma sourceOver_twice:
  assumes "b 3 = 0 \<or> b 3 = 255"
  shows "sourceOver (sourceOver e (sourceOver b (\<lambda>k. 0))) b k = sourceOver e b k"
    and "sourceOver (sourceOver b (\<lambda>k. 0)) b k = b k"
  using assms by (auto simp: sourceOver_def Let_def)

lemma setEditImage_None_ok:
  assumes "renderable s"
  shows "\<exists>s'. setEditImage s None = Inr s' \<and> \<not> hasSelection s'
      \<and> baseImageLayer s' = baseImageLayer s
      \<and> undoStack s' = undoStack s \<and> redoStack s' = redoStack s
      \<and> currentSnapshot s' = currentSnapshot s
      \<and> renderable s'"
proof (cases "selectionOverlay s")
  case None
  then show ?thesis using assms by (simp add: setEditImage_def renderable_def)
next
  case (Some sel)
  let ?s' = "s\<lparr>hasSelection := False, editLayer := clearRect (editLayer s), hasSelection := False\<rparr>"
  have r: "renderable ?s'"
    using assms by (simp add: renderable_def degenerate_def clearRect_def)
  have "setEditImage s None = Inr ?s'"
    using render_ok[OF r] by (simp add: setEditImage_def Some)
  with r show ?thesis by (intro exI[of _ ?s']) simp
qed

lemma commitSelection_ok:
  assumes rn: "renderable s"
  shows "\<exists>s3 s'. commitSelection s = Inr s' \<and> snapshot s3 = Inr s'
      \<and> \<not> hasSelection s3 \<and> renderable s3
      \<and> undoStack s3 = undoStack s \<and> redoStack s3 = redoStack s
      \<and> currentSnapshot s3 = currentSnapshot s
      \<and> cwidth (baseImageLayer s3) = cwidth (baseImageLayer s)
      \<and> cheight (baseImageLayer s3) = cheight (baseImageLayer s)
      \<and> (\<forall>x y k. inCanvas (baseImageLayer s) x y \<longrightarrow>
            cbyte (baseImageLayer s3) x y k =
              sourceOver (if inCanvas (editLayer s) x y
                          then sourceOver (cbyte (editLayer s) x y)
                                 (sourceOver (cbyte (baseImageLayer s) x y) (\<lambda>k. 0))
                          else sourceOver (cbyte (baseImageLayer s) x y) (\<lambda>k. 0))
                (cbyte (baseImageLayer s) x y) k)"
proof -
  let ?B = "baseImageLayer s" and ?E = "editLayer s"
  let ?tmp = "blankCanvas (cwidth ?B) (cheight ?B)"
  have ndB: "\<not> degenerate ?B" and ndE: "\<not> degenerate ?E"
    using rn by (simp_all add: renderable_def)
  obtain t1 where d1: "drawImage ?tmp ?B 0 0 = Inr t1"
    and t1: "t1 = ?tmp\<lparr>cbyte := (\<lambda>x y k.
        if inCanvas ?tmp x y \<and> inCanvas ?B (x - trunc 0) (y - trunc 0)
        then sourceOver (cbyte ?B (x - trunc 0) (y - trunc 0)) (cbyte ?tmp x y) k
        else cbyte ?tmp x y k)\<rparr>"
    using ndB by (simp add: drawImage_def)
  obtain t2 where d2: "drawImage t1 ?E 0 0 = Inr t2"
    and t2: "t2 = t1\<lparr>cbyte := (\<lambda>x y k.
        if inCanvas t1 x y \<and> inCanvas ?E (x - trunc 0) (y - trunc 0)
        then sourceOver (cbyte ?E (x - trunc 0) (y - trunc 0)) (cbyte t1 x y) k
        else cbyte t1 x y k)\<rparr>"
    using ndE by (simp add: drawImage_def)
  have dims2: "cwidth t2 = cwidth ?B" "cheight t2 = cheight ?B"
    by (simp_all add: t2 t1 blankCanvas_def)
  have nd2: "\<not> degenerate t2" using ndB dims2 by (simp add: degenerate_def)
  obtain b where d3: "drawImage ?B t2 0 0 = Inr b"
    and b: "b = ?B\<lparr>cbyte := (\<lambda>x y k.
        if inCanvas ?B x y \<and> inCanvas t2 (x - trunc 0) (y - trunc 0)
        then sourceOver (cbyte t2 (x - trunc 0) (y - trunc 0)) (cbyte ?B x y) k
        else cbyte ?B x y k)\<rparr>"
    using nd2 by (simp add: drawImage_def)
  have rb: "renderable (s\<lparr>baseImageLayer := b\<rparr>)"
    using rn by (simp add: renderable_def degenerate_def b)
  obtain s3 where se: "setEditImage (s\<lparr>baseImageLayer := b\<rparr>) None = Inr s3"
    and s3: "\<not> hasSelection s3" "baseImageLayer s3 = b" "undoStack s3 = undoStack s"
      "redoStack s3 = redoStack s" "currentSnapshot s3 = currentSnapshot s" "renderable s3"
    using setEditImage_None_ok[OF rb] by auto
  have nd3: "\<not> degenerate (baseImageLayer s3)"
    using s3(6) by (simp add: renderable_def)
  obtain u r snap where sn: "snapshot s3 = Inr (s3\<lparr>undoStack := u, redoStack := r,
                                                     currentSnapshot := Some snap\<rparr>)"
    using snapshot_history_only[OF nd3] by blast
  let ?s' = "s3\<lparr>undoStack := u, redoStack := r, currentSnapshot := Some snap\<rparr>"
  have run: "commitSelection s = Inr ?s'"
    unfolding commitSelection_def Let_def
    by (rule thenDo_eqI[OF d1], rule thenDo_eqI[OF d2], rule thenDo_eqI[OF d3],
        rule thenDo_eqI[OF se], rule sn)
  have px: "\<forall>x y k. inCanvas ?B x y \<longrightarrow>
            cbyte (baseImageLayer s3) x y k =
              sourceOver (if inCanvas ?E x y
                          then sourceOver (cbyte ?E x y) (sourceOver (cbyte ?B x y) (\<lambda>k. 0))
                          else sourceOver (cbyte ?B x y) (\<lambda>k. 0))
                (cbyte ?B x y) k"
  proof (intro allI impI)
    fix x y k
    assume inB: "inCanvas ?B x y"
    have in1: "inCanvas ?tmp x y" "inCanvas t1 x y" "inCanvas t2 x y"
      using inB by (simp_all add: inCanvas_def t2 t1 blankCanvas_def)
    have c1: "cbyte t1 x y = sourceOver (cbyte ?B x y) (\<lambda>k. 0)"
      using inB in1(1) by (simp add: t1 fun_eq_iff) (simp add: blankCanvas_def)
    have c2: "cbyte t2 x y = (if inCanvas ?E x y then sourceOver (cbyte ?E x y) (cbyte t1 x y)
                              else cbyte t1 x y)"
      using in1(2) by (simp add: t2 fun_eq_iff)
    have "cbyte (baseImageLayer s3) x y k = sourceOver (cbyte t2 x y) (cbyte ?B x y) k"
      using inB in1(3) by (simp add: s3(2) b)
    then show "cbyte (baseImageLayer s3) x y k =
              sourceOver (if inCanvas ?E x y
                          then sourceOver (cbyte ?E x y) (sourceOver (cbyte ?B x y) (\<lambda>k. 0))
                          else sourceOver (cbyte ?B x y) (\<lambda>k. 0))
                (cbyte ?B x y) k"
      by (simp only: c2 c1)
  qed
  show ?thesis
    using run sn s3 px by (intro exI[of _ s3] exI[of _ ?s']) (simp add: b)
qed


lemma last_after_push:
  "last (if length u < 50 then u @ [c] else tl (u @ [c])) = c"
  "(if length u < 50 then u @ [c] else tl (u @ [c])) \<noteq> []"
  by (cases u; simp)+

text \<open>
  C4 (as amended). When the layers can be rendered, \<^verbatim>\<open>commitSelection()\<close> completes and
  leaves no active selection. Wherever the base pixel was opaque or fully transparent,
  the new base pixel is the edit pixel composited over it. If a current snapshot existed,
  it is the new top of the undo stack and undo is available; if moreover that snapshot was
  the raster of the base layer, a following \<^verbatim>\<open>undo()\<close> restores that raster byte for
  byte.
\<close>

theorem commitSelection_flattens:
  assumes "renderable s"
  shows "\<exists>s'. commitSelection s = Inr s' \<and> \<not> hasSelection s'
      \<and> (\<forall>x y k. inCanvas (baseImageLayer s) x y \<longrightarrow>
            (cbyte (baseImageLayer s) x y 3 = 0 \<or> cbyte (baseImageLayer s) x y 3 = 255) \<longrightarrow>
            cbyte (baseImageLayer s') x y k =
              (if inCanvas (editLayer s) x y
               then sourceOver (cbyte (editLayer s) x y) (cbyte (baseImageLayer s) x y) k
               else cbyte (baseImageLayer s) x y k))
      \<and> (\<forall>cur. currentSnapshot s = Some cur \<longrightarrow>
            canUndo s' \<and> last (undoStack s') = cur
            \<and> (raster (baseImageLayer s) = Inr cur \<longrightarrow>
                 (\<exists>s''. undo s' True = Inr s''
                    \<and> raster (baseImageLayer s'') = raster (baseImageLayer s))))"
proof -
  let ?B = "baseImageLayer s" and ?E = "editLayer s"
  from commitSelection_ok[OF assms] obtain s3 s'
    where run: "commitSelection s = Inr s'" and sn: "snapshot s3 = Inr s'"
      and s3: "\<not> hasSelection s3" "renderable s3" "undoStack s3 = undoStack s"
        "redoStack s3 = redoStack s" "currentSnapshot s3 = currentSnapshot s"
      and dims: "cwidth (baseImageLayer s3) = cwidth ?B" "cheight (baseImageLayer s3) = cheight ?B"
      and px: "\<forall>x y k. inCanvas ?B x y \<longrightarrow>
            cbyte (baseImageLayer s3) x y k =
              sourceOver (if inCanvas ?E x y
                          then sourceOver (cbyte ?E x y) (sourceOver (cbyte ?B x y) (\<lambda>k. 0))
                          else sourceOver (cbyte ?B x y) (\<lambda>k. 0))
                (cbyte ?B x y) k"
    by blast
  have nd3: "\<not> degenerate (baseImageLayer s3)" using s3(2) by (simp add: renderable_def)
  obtain u r snap where hist: "s' = s3\<lparr>undoStack := u, redoStack := r, currentSnapshot := Some snap\<rparr>"
    and snap: "raster (baseImageLayer s3) = Inr snap"
    using snapshot_history_only[OF nd3] sn by auto
  have base': "baseImageLayer s' = baseImageLayer s3" and nosel: "\<not> hasSelection s'"
    and rn': "renderable s'"
    using s3(1,2) by (simp_all add: hist renderable_def)
  have flat: "\<forall>x y k. inCanvas ?B x y \<longrightarrow>
            (cbyte ?B x y 3 = 0 \<or> cbyte ?B x y 3 = 255) \<longrightarrow>
            cbyte (baseImageLayer s') x y k =
              (if inCanvas ?E x y then sourceOver (cbyte ?E x y) (cbyte ?B x y) k
               else cbyte ?B x y k)"
    using px by (simp add: base' sourceOver_twice)
  have undo: "\<forall>cur. currentSnapshot s = Some cur \<longrightarrow>
            canUndo s' \<and> last (undoStack s') = cur
            \<and> (raster ?B = Inr cur \<longrightarrow>
                 (\<exists>s''. undo s' True = Inr s'' \<and> raster (baseImageLayer s'') = raster ?B))"
  proof (intro allI impI)
    fix cur
    assume cur: "currentSnapshot s = Some cur"
    then have cur3: "currentSnapshot s3 = Some cur" using s3(5) by simp
    have s'eq: "s' = s3\<lparr>undoStack := (if length (undoStack s3) < 50
                                        then undoStack s3 @ [cur]
                                        else tl (undoStack s3 @ [cur])),
                          redoStack := [], currentSnapshot := Some snap\<rparr>"
      using snapshot_Some[OF snap cur3] sn by simp
    have st: "undoStack s' \<noteq> []" "last (undoStack s') = cur" "currentSnapshot s' = Some snap"
      by (subst s'eq, simp add: last_after_push del: last_appendR last_snoc)+
    have cu: "canUndo s'" using nosel st(1) by (simp add: canUndo_def)
    have restore: "\<exists>s''. undo s' True = Inr s'' \<and> raster (baseImageLayer s'') = raster ?B"
      if sync: "raster ?B = Inr cur"
    proof -
      let ?s'' = "undoRestore s' snap True"
      have b'': "baseImageLayer ?s'' = putImageData (clearRect (baseImageLayer s3)) cur 0 0"
        by (simp add: undoRestore_def Let_def st(2) base')
      have rn'': "renderable ?s''"
        using rn' base' by (simp add: renderable_def degenerate_def b'' putImageData_def clearRect_def)
           (simp add: undoRestore_def Let_def)
      have u: "undo s' True = Inr ?s''"
        using st(1,3) render_ok[OF rn''] by (simp add: undo_def)
      have "raster (baseImageLayer ?s'') = Inr cur"
        unfolding b'' by (rule raster_putImageData[OF sync]) (simp_all add: clearRect_def dims)
      with u sync show ?thesis by auto
    qed
    from cu st(2) restore
    show "canUndo s' \<and> last (undoStack s') = cur
            \<and> (raster ?B = Inr cur \<longrightarrow>
                 (\<exists>s''. undo s' True = Inr s'' \<and> raster (baseImageLayer s'') = raster ?B))"
      by blast
  qed
  show ?thesis by (intro exI[of _ s'] conjI run nosel flat undo)
qed


theorem commitSelection_flattens_witness:
  "\<exists>s cur. renderable s \<and> currentSnapshot s = Some cur \<and> raster (baseImageLayer s) = Inr cur
      \<and> inCanvas (baseImageLayer s) 0 0 \<and> cbyte (baseImageLayer s) 0 0 3 = 0
      \<and> cbyte (editLayer s) 0 0 3 = 255
      \<and> (\<exists>s'. commitSelection s = Inr s' \<and> \<not> hasSelection s'
            \<and> cbyte (baseImageLayer s') 0 0 3 = 255
            \<and> canUndo s'
            \<and> (\<exists>s''. undo s' True = Inr s''
                  \<and> raster (baseImageLayer s'') = raster (baseImageLayer s)))"
proof -
  let ?s0 = "createRenderer 800 600"
  have nd0: "\<not> degenerate (baseImageLayer ?s0)"
    by (simp add: createRenderer_def degenerate_def blankCanvas_def)
  obtain cur where cur: "raster (baseImageLayer ?s0) = Inr cur"
    using raster_Inr[OF nd0] by blast
  let ?s = "?s0\<lparr>currentSnapshot := Some cur, editLayer := opaqueImage 300 150\<rparr>"
  have rn: "renderable ?s"
    by (simp add: renderable_def createRenderer_def degenerate_def blankCanvas_def opaqueImage_def)
  have a: "currentSnapshot ?s = Some cur" "raster (baseImageLayer ?s) = Inr cur"
    using cur by simp_all
  have b: "inCanvas (baseImageLayer ?s) 0 0" "cbyte (baseImageLayer ?s) 0 0 3 = 0"
      "cbyte (editLayer ?s) 0 0 3 = 255" "inCanvas (editLayer ?s) 0 0"
    by (simp_all add: createRenderer_def inCanvas_def blankCanvas_def opaqueImage_def)
  from commitSelection_flattens[OF rn] obtain s'
    where s': "commitSelection ?s = Inr s'" "\<not> hasSelection s'"
      and flat: "\<forall>x y k. inCanvas (baseImageLayer ?s) x y \<longrightarrow>
            (cbyte (baseImageLayer ?s) x y 3 = 0 \<or> cbyte (baseImageLayer ?s) x y 3 = 255) \<longrightarrow>
            cbyte (baseImageLayer s') x y k =
              (if inCanvas (editLayer ?s) x y
               then sourceOver (cbyte (editLayer ?s) x y) (cbyte (baseImageLayer ?s) x y) k
               else cbyte (baseImageLayer ?s) x y k)"
      and un: "\<forall>c. currentSnapshot ?s = Some c \<longrightarrow>
            canUndo s' \<and> last (undoStack s') = c
            \<and> (raster (baseImageLayer ?s) = Inr c \<longrightarrow>
                 (\<exists>s''. undo s' True = Inr s''
                    \<and> raster (baseImageLayer s'') = raster (baseImageLayer ?s)))"
    by (elim exE conjE) (rule that, assumption+)
  have "cbyte (baseImageLayer s') 0 0 3
      = sourceOver (cbyte (editLayer ?s) 0 0) (cbyte (baseImageLayer ?s) 0 0) 3"
    using flat b(1,2,4) by simp
  then have px: "cbyte (baseImageLayer s') 0 0 3 = 255"
    using b(2,3) by (simp add: sourceOver_def)
  from un a have cu: "canUndo s'"
    and re: "\<exists>s''. undo s' True = Inr s'' \<and> raster (baseImageLayer s'') = raster (baseImageLayer ?s)"
    by blast+
  show ?thesis
    using rn a b(1,2,3) s' px cu re by (intro exI[of _ ?s] exI[of _ cur]) blast
qed

text \<open>
  In a renderer that has taken no snapshot yet, \<^verbatim>\<open>commitSelection()\<close> of a painted edit
  layer changes the base layer and leaves the undo stack empty: \<^verbatim>\<open>undo()\<close> does nothing.
  And a base pixel of alpha 128 under an empty edit layer comes out with a larger alpha: the
  composite is drawn over the base layer, not in its place.
\<close>

theorem commitSelection_first_commit_counterexample:
  "(\<exists>s'. commitSelection ((createRenderer 800 600)\<lparr>editLayer := opaqueImage 300 150\<rparr>) = Inr s'
      \<and> cbyte (baseImageLayer s') 0 0 3 = 255
      \<and> undoStack s' = [] \<and> \<not> canUndo s' \<and> undo s' True = Inr s'
      \<and> raster (baseImageLayer s')
          \<noteq> raster (baseImageLayer ((createRenderer 800 600)\<lparr>editLayer := opaqueImage 300 150\<rparr>)))
   \<and> (\<exists>t'. commitSelection ((createRenderer 800 600)
              \<lparr>baseImageLayer := \<lparr>cwidth = 300, cheight = 150, cbyte = (\<lambda>x y k. 128)\<rparr>\<rparr>) = Inr t'
      \<and> cbyte (editLayer ((createRenderer 800 600)
              \<lparr>baseImageLayer := \<lparr>cwidth = 300, cheight = 150, cbyte = (\<lambda>x y k. 128)\<rparr>\<rparr>)) 0 0 3 = 0
      \<and> cbyte (baseImageLayer ((createRenderer 800 600)
              \<lparr>baseImageLayer := \<lparr>cwidth = 300, cheight = 150, cbyte = (\<lambda>x y k. 128)\<rparr>\<rparr>)) 0 0 3 = 128
      \<and> 128 < cbyte (baseImageLayer t') 0 0 3)"
proof -
  let ?s = "(createRenderer 800 600)\<lparr>editLayer := opaqueImage 300 150\<rparr>"
  let ?t = "(createRenderer 800 600)
              \<lparr>baseImageLayer := \<lparr>cwidth = 300, cheight = 150, cbyte = (\<lambda>x y k. 128)\<rparr>\<rparr>"
  have rn: "renderable ?s" "renderable ?t"
    by (simp_all add: renderable_def createRenderer_def degenerate_def blankCanvas_def
        opaqueImage_def)
  have first: "\<exists>s'. commitSelection ?s = Inr s'
      \<and> cbyte (baseImageLayer s') 0 0 3 = 255
      \<and> undoStack s' = [] \<and> \<not> canUndo s' \<and> undo s' True = Inr s'
      \<and> raster (baseImageLayer s') \<noteq> raster (baseImageLayer ?s)"
  proof -
    from commitSelection_ok[OF rn(1)] obtain s3 s'
      where run: "commitSelection ?s = Inr s'" and sn: "snapshot s3 = Inr s'"
        and s3: "undoStack s3 = undoStack ?s" "currentSnapshot s3 = currentSnapshot ?s"
        and px: "\<forall>x y k. inCanvas (baseImageLayer ?s) x y \<longrightarrow>
            cbyte (baseImageLayer s3) x y k =
              sourceOver (if inCanvas (editLayer ?s) x y
                          then sourceOver (cbyte (editLayer ?s) x y)
                                 (sourceOver (cbyte (baseImageLayer ?s) x y) (\<lambda>k. 0))
                          else sourceOver (cbyte (baseImageLayer ?s) x y) (\<lambda>k. 0))
                (cbyte (baseImageLayer ?s) x y) k"
      by blast
    obtain snap where snap: "currentSnapshot s' = Some snap" "raster (baseImageLayer s') = Inr snap"
        "baseImageLayer s' = baseImageLayer s3"
      using snapshot_sets_current[OF sn] by blast
    have nd3: "\<not> degenerate (baseImageLayer s3)"
      using snap(2,3) raster_Inr_nondegenerate by auto
    have none: "currentSnapshot s3 = None" using s3(2) by (simp add: createRenderer_def)
    have "snapshot s3 = Inr (s3\<lparr>currentSnapshot := Some snap\<rparr>)"
      using snap(2,3) none by (intro snapshot_None) simp_all
    with sn have eq: "s' = s3\<lparr>currentSnapshot := Some snap\<rparr>" by simp
    have un: "undoStack s' = []"
      by (subst eq) (simp add: s3(1) createRenderer_def)
    have alpha: "cbyte (baseImageLayer s') 0 0 3 = 255"
      using px by (simp add: snap(3) inCanvas_def createRenderer_def blankCanvas_def
          opaqueImage_def sourceOver_def)
    have w: "0 < cwidth (baseImageLayer s')" "0 < cheight (baseImageLayer s')"
      using nd3 snap(3) by (simp_all add: degenerate_def)
    have "idata snap ! 3 = 255"
      using raster_byte[OF snap(2) w, of 3] alpha by simp
    moreover obtain snap0 where snap0: "raster (baseImageLayer ?s) = Inr snap0"
      using raster_Inr[of "baseImageLayer ?s"] rn(1) by (auto simp: renderable_def)
    then have "idata snap0 ! 3 = 0"
      using raster_byte[OF snap0, of 0 0 3] by (simp add: createRenderer_def blankCanvas_def)
    ultimately have ne: "raster (baseImageLayer s') \<noteq> raster (baseImageLayer ?s)"
      using snap(2) snap0 by auto
    show ?thesis
      using run alpha un ne by (intro exI[of _ s']) (simp add: canUndo_def undo_def split: option.splits)
  qed
  have second: "\<exists>t'. commitSelection ?t = Inr t'
      \<and> cbyte (editLayer ?t) 0 0 3 = 0 \<and> cbyte (baseImageLayer ?t) 0 0 3 = 128
      \<and> 128 < cbyte (baseImageLayer t') 0 0 3"
  proof -
    from commitSelection_ok[OF rn(2)] obtain s3 t'
      where run: "commitSelection ?t = Inr t'" and sn: "snapshot s3 = Inr t'"
        and px: "\<forall>x y k. inCanvas (baseImageLayer ?t) x y \<longrightarrow>
            cbyte (baseImageLayer s3) x y k =
              sourceOver (if inCanvas (editLayer ?t) x y
                          then sourceOver (cbyte (editLayer ?t) x y)
                                 (sourceOver (cbyte (baseImageLayer ?t) x y) (\<lambda>k. 0))
                          else sourceOver (cbyte (baseImageLayer ?t) x y) (\<lambda>k. 0))
                (cbyte (baseImageLayer ?t) x y) k"
      by blast
    have b: "baseImageLayer t' = baseImageLayer s3"
      using snapshot_sets_current[OF sn] by blast
    have "cbyte (baseImageLayer t') 0 0 3 = 191"
      using px by (simp add: b inCanvas_def createRenderer_def blankCanvas_def sourceOver_def)
    then show ?thesis
      using run by (intro exI[of _ t']) (simp add: createRenderer_def blankCanvas_def)
  qed
  from first second show ?thesis by (rule conjI)
qed

subsection \<open>One stamp of the smudge brush\<close>

text \<open>The window pixels in the order of the two nested loops, and their indices.\<close>

lemma set_window_pixels:
  "((y, x) \<in> set (List.product [0..<h] [0..<w])) = (y < h \<and> x < w)"
  by auto

lemma distinct_window_indices:
  "distinct (map (\<lambda>(y, x). y * w + x) (List.product [0..<h] [0..<w]))"
proof -
  have "inj_on (\<lambda>(y, x). y * w + x) (set (List.product [0..<h] [0..<w]))"
  proof (rule inj_onI, clarsimp)
    fix y x y' x' :: nat
    assume "x < w" "x' < w" and eq: "y * w + x = y' * w + x'"
    then have "(y * w + x) div w = (y' * w + x') div w" "(y * w + x) mod w = (y' * w + x') mod w"
      by simp_all
    with \<open>x < w\<close> \<open>x' < w\<close> show "y = y' \<and> x = x'" by simp
  qed
  moreover have "distinct (List.product [0..<h] [0..<w])"
    by (simp add: distinct_product)
  ultimately show ?thesis by (simp add: distinct_map)
qed

text \<open>The totals are the sums over the pixels within the radius.\<close>

lemma smudgeTotal_step:
  "smudgeTotal img b (r, g, bl, n) (y, x) =
    (if withinBrush b x y
     then (r + real (idata img ! ((y * iwidth img + x) * 4)),
           g + real (idata img ! ((y * iwidth img + x) * 4 + 1)),
           bl + real (idata img ! ((y * iwidth img + x) * 4 + 2)),
           n + 1)
     else (r, g, bl, n))"
  by (simp add: smudgeTotal_def withinBrush_def power2_eq_square Let_def)

lemma foldl_smudgeTotal:
  "foldl (smudgeTotal img b) (r, g, bl, n) ps =
    (r + sum_list (map (\<lambda>(y, x). real (idata img ! ((y * iwidth img + x) * 4)))
            (filter (\<lambda>(y, x). withinBrush b x y) ps)),
     g + sum_list (map (\<lambda>(y, x). real (idata img ! ((y * iwidth img + x) * 4 + 1)))
            (filter (\<lambda>(y, x). withinBrush b x y) ps)),
     bl + sum_list (map (\<lambda>(y, x). real (idata img ! ((y * iwidth img + x) * 4 + 2)))
            (filter (\<lambda>(y, x). withinBrush b x y) ps)),
     n + real (length (filter (\<lambda>(y, x). withinBrush b x y) ps)))"
proof (induction ps arbitrary: r g bl n)
  case Nil
  show ?case by simp
next
  case (Cons p ps)
  obtain y x where p: "p = (y, x)" by (cases p)
  show ?case
  proof (cases "withinBrush b x y")
    case True
    have "foldl (smudgeTotal img b) (r, g, bl, n) (p # ps)
        = foldl (smudgeTotal img b)
            (r + real (idata img ! ((y * iwidth img + x) * 4)),
             g + real (idata img ! ((y * iwidth img + x) * 4 + 1)),
             bl + real (idata img ! ((y * iwidth img + x) * 4 + 2)),
             n + 1) ps"
      by (simp only: foldl_Cons p smudgeTotal_step True if_True)
    also note Cons.IH
    finally show ?thesis
      by (simp only: p filter.simps True case_prod_conv if_True list.map sum_list.Cons
          list.size add.assoc prod.inject) simp
  next
    case False
    have "foldl (smudgeTotal img b) (r, g, bl, n) (p # ps)
        = foldl (smudgeTotal img b) (r, g, bl, n) ps"
      by (simp only: foldl_Cons p smudgeTotal_step False if_False)
    also note Cons.IH
    finally show ?thesis
      by (simp only: p filter.simps False case_prod_conv if_False)
  qed
qed

text \<open>A loop that rewrites the first three bytes of some pixels, each pixel at most once.\<close>

lemma foldl_rewrite_nth:
  fixes idx :: "'p \<Rightarrow> nat" and g :: "nat \<Rightarrow> nat \<Rightarrow> nat"
  assumes step: "\<And>d p. step d p =
        (if P p then
           (let d1 = d[idx p * 4 := g 0 (d ! (idx p * 4))];
                d2 = d1[idx p * 4 + 1 := g 1 (d1 ! (idx p * 4 + 1))];
                d3 = d2[idx p * 4 + 2 := g 2 (d2 ! (idx p * 4 + 2))]
            in d3)
         else d)"
    and "distinct (map idx ps)" and "j < length d"
  shows "length (foldl step d ps) = length d
       \<and> foldl step d ps ! j =
          (if (\<exists>p \<in> set ps. P p \<and> idx p = j div 4) \<and> j mod 4 < 3
           then g (j mod 4) (d ! j) else d ! j)"
  using assms(2,3)
proof (induction ps arbitrary: d)
  case Nil
  show ?case by simp
next
  case (Cons p ps)
  let ?d = "step d p"
  have len: "length ?d = length d" by (simp add: step Let_def)
  have dist: "distinct (map idx ps)" and notin: "idx p \<notin> idx ` set ps"
    using Cons.prems(1) by auto
  have j: "j < length ?d" using Cons.prems(2) len by simp
  have IH: "length (foldl step ?d ps) = length ?d
       \<and> foldl step ?d ps ! j =
          (if (\<exists>q \<in> set ps. P q \<and> idx q = j div 4) \<and> j mod 4 < 3
           then g (j mod 4) (?d ! j) else ?d ! j)"
    by (rule Cons.IH[OF dist j])
  have jform: "j = (j div 4) * 4 + j mod 4" by simp
  have here: "?d ! j = (if P p \<and> idx p = j div 4 \<and> j mod 4 < 3 then g (j mod 4) (d ! j) else d ! j)"
  proof (cases "P p")
    case False
    then show ?thesis by (simp add: step)
  next
    case True
    show ?thesis
    proof (cases "idx p = j div 4")
      case False
      then have "idx p * 4 \<noteq> j" "idx p * 4 + 1 \<noteq> j" "idx p * 4 + 2 \<noteq> j" by auto
      then show ?thesis using True False by (simp add: step Let_def)
    next
      case same: True
      have jj: "j = idx p * 4 + j mod 4" using same jform by simp
      have lt: "j mod 4 < 4" by simp
      then consider "j mod 4 = 0" | "j mod 4 = 1" | "j mod 4 = 2" | "j mod 4 = 3" by linarith
      then show ?thesis
      proof cases
        case 1
        then have e: "idx p * 4 = j" using jj by simp
        show ?thesis using True same 1 Cons.prems(2) by (simp add: step Let_def e[symmetric])
      next
        case 2
        then have e: "idx p * 4 + 1 = j" using jj by simp
        show ?thesis using True same 2 Cons.prems(2) by (simp add: step Let_def e[symmetric])
      next
        case 3
        then have e: "idx p * 4 + 2 = j" using jj by simp
        show ?thesis using True same 3 Cons.prems(2) by (simp add: step Let_def e[symmetric])
      next
        case 4
        then have e: "idx p * 4 + 3 = j" using jj by simp
        show ?thesis using True same 4 by (simp add: step Let_def e[symmetric])
      qed
    qed
  qed
  show ?case
  proof (cases "\<exists>q \<in> set ps. P q \<and> idx q = j div 4")
    case True
    then have "idx p \<noteq> j div 4" using notin by force
    with IH here len True show ?thesis by auto
  next
    case False
    with IH here len show ?thesis by auto
  qed
qed


text \<open>The window that a brush of size at least one reads.\<close>

lemma getImageData_window:
  assumes "1 \<le> b"
  shows "getImageData c (x - b / 2) (y - b / 2) b b =
    Inr \<lparr>iwidth = nat \<lfloor>b\<rfloor>, iheight = nat \<lfloor>b\<rfloor>,
         idata = map (\<lambda>i. windowByte c (trunc (x - b / 2)) (trunc (y - b / 2))
                            ((i div 4) mod nat \<lfloor>b\<rfloor>) ((i div 4) div nat \<lfloor>b\<rfloor>) (i mod 4))
                   [0..<4 * nat \<lfloor>b\<rfloor> * nat \<lfloor>b\<rfloor>]\<rparr>"
proof -
  have t: "trunc b = \<lfloor>b\<rfloor>" using assms by (simp add: trunc_def)
  have pos: "1 \<le> \<lfloor>b\<rfloor>" using assms by (simp add: le_floor_iff)
  then have a: "\<bar>\<lfloor>b\<rfloor>\<bar> = \<lfloor>b\<rfloor>" "\<lfloor>b\<rfloor> \<noteq> 0" "\<not> \<lfloor>b\<rfloor> < 0" by linarith+
  show ?thesis
    unfolding getImageData_def t Let_def windowByte_def
    by (simp only: a if_False simp_thms)
qed

lemma window_nth:
  fixes w :: nat
  assumes "y < w" and "x < w" and "k < 4"
  shows "map (\<lambda>i. f ((i div 4) mod w) ((i div 4) div w) (i mod 4)) [0..<4 * w * w]
           ! ((y * w + x) * 4 + k) = f x y k"
proof -
  define j where "j = (y * w + x) * 4 + k"
  have "y * w + x < (y + 1) * w" using assms(2) by simp
  also have "\<dots> \<le> w * w" using assms(1) by (intro mult_le_mono1) simp
  finally have lt: "j < 4 * w * w" using assms(3) by (simp add: j_def)
  have d: "j div 4 = y * w + x" and m: "j mod 4 = k"
    unfolding j_def using divmod4[OF assms(3), of "y * w + x"]
    by (simp_all only: mult.commute[of _ 4])
  have "map (\<lambda>i. f ((i div 4) mod w) ((i div 4) div w) (i mod 4)) [0..<4 * w * w] ! j = f x y k"
    using lt assms(2) by (simp add: d m)
  then show ?thesis by (simp only: j_def)
qed

text \<open>The mean the two loops compute is the mean over the pixels within the brush.\<close>

lemma sum_window_channel:
  assumes "k < 4"
  shows "sum_list (map (\<lambda>(y, x). real (map (\<lambda>i. windowByte c x0 y0 ((i div 4) mod w) ((i div 4) div w) (i mod 4))
                                        [0..<4 * w * w] ! ((y * w + x) * 4 + k)))
            (filter (\<lambda>(y, x). withinBrush b x y) (List.product [0..<w] [0..<w])))
       = sum_list (map (\<lambda>(y, x). real (windowByte c x0 y0 x y k)) (brushPixels b w))"
  unfolding brushPixels_def
proof (rule arg_cong[where f = sum_list], rule map_cong[OF refl])
  fix p assume "p \<in> set (filter (\<lambda>(y, x). withinBrush b x y) (List.product [0..<w] [0..<w]))"
  then obtain y x where p: "p = (y, x)" "y < w" "x < w" by auto
  show "(case p of (y, x) \<Rightarrow> real (map (\<lambda>i. windowByte c x0 y0 ((i div 4) mod w) ((i div 4) div w) (i mod 4))
                                        [0..<4 * w * w] ! ((y * w + x) * 4 + k)))
      = (case p of (y, x) \<Rightarrow> real (windowByte c x0 y0 x y k))"
    unfolding p(1) prod.case using window_nth[OF p(2,3) assms] by simp
qed


lemma smudgeBlend_step:
  "smudgeBlend w b opacity (aR, aG, aB) d p =
    (if (case p of (y, x) \<Rightarrow> withinBrush b x y) then
       (let d1 = d[(case p of (y, x) \<Rightarrow> y * w + x) * 4 :=
                    toUint8Clamped ((if (0::nat) = 0 then aR else if (0::nat) = 1 then aG else aB) * opacity
                      + real (d ! ((case p of (y, x) \<Rightarrow> y * w + x) * 4)) * (1 - opacity))];
            d2 = d1[(case p of (y, x) \<Rightarrow> y * w + x) * 4 + 1 :=
                    toUint8Clamped ((if (1::nat) = 0 then aR else if (1::nat) = 1 then aG else aB) * opacity
                      + real (d1 ! ((case p of (y, x) \<Rightarrow> y * w + x) * 4 + 1)) * (1 - opacity))];
            d3 = d2[(case p of (y, x) \<Rightarrow> y * w + x) * 4 + 2 :=
                    toUint8Clamped ((if (2::nat) = 0 then aR else if (2::nat) = 1 then aG else aB) * opacity
                      + real (d2 ! ((case p of (y, x) \<Rightarrow> y * w + x) * 4 + 2)) * (1 - opacity))]
        in d3)
     else d)"
  by (cases p) (simp add: smudgeBlend_def withinBrush_def power2_eq_square Let_def)

lemma window_pixel_unique:
  assumes "iy < w" and "ix < w"
  shows "(\<exists>p \<in> set (List.product [0..<w] [0..<w]).
            (case p of (y, x) \<Rightarrow> withinBrush b x y) \<and> (case p of (y, x) \<Rightarrow> y * w + x) = iy * w + ix)
         = withinBrush b ix iy"
proof
  assume "\<exists>p \<in> set (List.product [0..<w] [0..<w]).
            (case p of (y, x) \<Rightarrow> withinBrush b x y) \<and> (case p of (y, x) \<Rightarrow> y * w + x) = iy * w + ix"
  then obtain y x where p: "y < w" "x < w" "withinBrush b x y" "y * w + x = iy * w + ix" by auto
  from p(4) have "(y * w + x) div w = (iy * w + ix) div w" "(y * w + x) mod w = (iy * w + ix) mod w"
    by simp_all
  with p(2) assms(2) have "y = iy" "x = ix" by simp_all
  with p(3) show "withinBrush b ix iy" by simp
next
  assume "withinBrush b ix iy"
  with assms show "\<exists>p \<in> set (List.product [0..<w] [0..<w]).
            (case p of (y, x) \<Rightarrow> withinBrush b x y) \<and> (case p of (y, x) \<Rightarrow> y * w + x) = iy * w + ix"
    by (intro bexI[of _ "(iy, ix)"]) simp_all
qed

lemma smudgeStep_stamp:
  assumes "1 \<le> b"
  shows "smudgeStep c x y b opacity = Inr (smudgeStamp c x y b opacity)"
proof -
  define w where "w = nat \<lfloor>b\<rfloor>"
  define x0 where "x0 = trunc (x - b / 2)"
  define y0 where "y0 = trunc (y - b / 2)"
  define wdata where "wdata = map (\<lambda>i. windowByte c x0 y0 ((i div 4) mod w) ((i div 4) div w) (i mod 4))
                   [0..<4 * w * w]"
  define img where "img = \<lparr>iwidth = w, iheight = w, idata = wdata\<rparr>"
  define pixels where "pixels = List.product [0..<w] [0..<w]"
  define avg where "avg k = brushMean c x0 y0 b w k" for k
  define g where "g k old = toUint8Clamped ((if k = 0 then avg 0 else if k = 1 then avg 1 else avg 2) * opacity
                      + real old * (1 - opacity))" for k :: nat and old :: nat
  define d where "d = foldl (smudgeBlend w b opacity (avg 0, avg 1, avg 2)) wdata pixels"
  have gi: "getImageData c (x - b / 2) (y - b / 2) b b = Inr img"
    unfolding img_def wdata_def w_def x0_def y0_def by (rule getImageData_window[OF assms])
  have iw: "iwidth img = w" "iheight img = w" "idata img = wdata"
    by (simp_all add: img_def)
  have tot: "foldl (smudgeTotal img b) (0, 0, 0, 0) pixels
      = (sum_list (map (\<lambda>(y, x). real (windowByte c x0 y0 x y 0)) (brushPixels b w)),
         sum_list (map (\<lambda>(y, x). real (windowByte c x0 y0 x y 1)) (brushPixels b w)),
         sum_list (map (\<lambda>(y, x). real (windowByte c x0 y0 x y 2)) (brushPixels b w)),
         real (length (brushPixels b w)))"
    using sum_window_channel[of 0 c x0 y0 w b] sum_window_channel[of 1 c x0 y0 w b]
      sum_window_channel[of 2 c x0 y0 w b]
    by (simp add: foldl_smudgeTotal img_def wdata_def pixels_def brushPixels_def)
  have run: "smudgeStep c x y b opacity
      = Inr (putImageData c (img\<lparr>idata := d\<rparr>) (x - b / 2) (y - b / 2))"
    unfolding smudgeStep_def gi thenDo_Inr Let_def iw pixels_def[symmetric] tot prod.case
      d_def avg_def brushMean_def
    by (rule refl)
  have len: "length wdata = 4 * w * w" by (simp add: wdata_def)
  have nth: "d ! j = (if (\<exists>p \<in> set pixels. (case p of (y, x) \<Rightarrow> withinBrush b x y)
                          \<and> (case p of (y, x) \<Rightarrow> y * w + x) = j div 4) \<and> j mod 4 < 3
                      then g (j mod 4) (wdata ! j) else wdata ! j)"
    if "j < 4 * w * w" for j
  proof -
    have dist: "distinct (map (\<lambda>(y, x). y * w + x) pixels)"
      unfolding pixels_def by (rule distinct_window_indices)
    have j: "j < length wdata" using that len by simp
    show ?thesis
      unfolding d_def
      using foldl_rewrite_nth[where step = "smudgeBlend w b opacity (avg 0, avg 1, avg 2)"
          and P = "\<lambda>p. case p of (y, x) \<Rightarrow> withinBrush b x y"
          and idx = "\<lambda>(y, x). y * w + x" and g = g and ps = pixels and d = wdata and j = j,
          OF _ dist j]
      by (simp add: smudgeBlend_step g_def)
  qed
  have px: "cbyte (putImageData c (img\<lparr>idata := d\<rparr>) (x - b / 2) (y - b / 2)) px py k
          = cbyte (smudgeStamp c x y b opacity) px py k" for px py k
  proof (cases "inCanvas c px py \<and> x0 \<le> px \<and> px < x0 + int w \<and> y0 \<le> py \<and> py < y0 + int w \<and> k < 4")
    case False
    then show ?thesis
      by (auto simp: putImageData_def smudgeStamp_def Let_def img_def x0_def y0_def w_def)
  next
    case True
    define ix where "ix = nat (px - x0)"
    define iy where "iy = nat (py - y0)"
    have i: "ix < w" "iy < w" "px = x0 + int ix" "py = y0 + int iy"
      using True unfolding ix_def iy_def by linarith+
    have k: "k < 4" using True by simp
    define j where "j = (iy * w + ix) * 4 + k"
    have "iy * w + ix < (iy + 1) * w" using i(1) by simp
    also have "\<dots> \<le> w * w" using i(2) by (intro mult_le_mono1) simp
    finally have lt: "j < 4 * w * w" using k by (simp add: j_def)
    have dm: "j div 4 = iy * w + ix" "j mod 4 = k"
      unfolding j_def using divmod4[OF k, of "iy * w + ix"]
      by (simp_all only: mult.commute[of _ 4])
    have "wdata ! j = windowByte c x0 y0 ix iy k"
      unfolding wdata_def j_def by (rule window_nth[OF i(2,1) k, where f = "windowByte c x0 y0"])
    also have "\<dots> = cbyte c px py k"
      using True by (simp add: windowByte_def i(3,4)[symmetric])
    finally have orig: "wdata ! j = cbyte c px py k" .
    have j': "4 * (nat (py - y0) * w + nat (px - x0)) + k = j"
      by (simp add: j_def ix_def iy_def)
    have "cbyte (putImageData c (img\<lparr>idata := d\<rparr>) (x - b / 2) (y - b / 2)) px py k
        = d ! (4 * (nat (py - y0) * w + nat (px - x0)) + k)"
      using True unfolding putImageData_def Let_def x0_def[symmetric] y0_def[symmetric]
      by (simp add: img_def)
    then have put: "cbyte (putImageData c (img\<lparr>idata := d\<rparr>) (x - b / 2) (y - b / 2)) px py k = d ! j"
      by (simp only: j')
    have "d ! j = (if withinBrush b ix iy \<and> k < 3 then g k (cbyte c px py k) else cbyte c px py k)"
      using nth[OF lt] window_pixel_unique[OF i(2,1), of b]
      by (simp add: dm orig pixels_def)
    also have "\<dots> = cbyte (smudgeStamp c x y b opacity) px py k"
    proof -
      have sel: "g k old = toUint8Clamped (brushMean c x0 y0 b w k * opacity + real old * (1 - opacity))"
        if "k < 3" for old
      proof -
        from that consider "k = 0" | "k = 1" | "k = 2" by linarith
        then show ?thesis by cases (simp_all add: g_def avg_def)
      qed
      show ?thesis
        using True sel by (auto simp: smudgeStamp_def Let_def w_def[symmetric]
          x0_def[symmetric] y0_def[symmetric] ix_def iy_def)
    qed
    finally show ?thesis using put by simp
  qed
  have "putImageData c (img\<lparr>idata := d\<rparr>) (x - b / 2) (y - b / 2) = smudgeStamp c x y b opacity"
  proof -
    have "cbyte (putImageData c (img\<lparr>idata := d\<rparr>) (x - b / 2) (y - b / 2))
        = cbyte (smudgeStamp c x y b opacity)"
      using px by (intro ext) 
    moreover have "cwidth (putImageData c (img\<lparr>idata := d\<rparr>) (x - b / 2) (y - b / 2))
        = cwidth (smudgeStamp c x y b opacity)"
      "cheight (putImageData c (img\<lparr>idata := d\<rparr>) (x - b / 2) (y - b / 2))
        = cheight (smudgeStamp c x y b opacity)"
      by (simp_all add: putImageData_def smudgeStamp_def Let_def)
    ultimately show ?thesis by (simp add: putImageData_def smudgeStamp_def Let_def)
  qed
  with run show ?thesis by simp
qed


subsection \<open>The line of stamps\<close>

lemma smudgeWalk_fold:
  assumes "1 \<le> b"
  shows "smudgeWalk c x1 y1 ux uy len b opacity i =
    Inr (foldl (\<lambda>c j. smudgeStamp c (x1 + real j * ux) (y1 + real j * uy) b opacity) c
           [i..<nat \<lceil>len\<rceil>])"
proof (induction "nat \<lceil>len\<rceil> - i" arbitrary: i c)
  case 0
  then have "nat \<lceil>len\<rceil> \<le> i" by simp
  then have "\<not> real i < len" by linarith
  with \<open>nat \<lceil>len\<rceil> \<le> i\<close> show ?case
    by (subst smudgeWalk.simps) simp
next
  case (Suc n)
  then have lt: "i < nat \<lceil>len\<rceil>" by simp
  then have "real i < len" by linarith
  moreover have "n = nat \<lceil>len\<rceil> - Suc i" using Suc.hyps(2) by simp
  ultimately show ?case
    using Suc.hyps(1)[of "Suc i"] lt
    by (subst smudgeWalk.simps) (simp add: smudgeStep_stamp[OF assms] upt_conv_Cons)
qed

lemma smudgeStamp_keeps:
  "cwidth (smudgeStamp c x y b opacity) = cwidth c"
  "cheight (smudgeStamp c x y b opacity) = cheight c"
  "cbyte (smudgeStamp c x y b opacity) px py 3 = cbyte c px py 3"
  by (simp_all add: smudgeStamp_def Let_def)

lemma foldl_smudgeStamp_keeps:
  "cwidth (foldl (\<lambda>c j. smudgeStamp c (fx j) (fy j) b opacity) c js) = cwidth c
   \<and> cheight (foldl (\<lambda>c j. smudgeStamp c (fx j) (fy j) b opacity) c js) = cheight c
   \<and> cbyte (foldl (\<lambda>c j. smudgeStamp c (fx j) (fy j) b opacity) c js) px py 3 = cbyte c px py 3"
  by (induction js arbitrary: c) (simp_all add: smudgeStamp_keeps)

lemma opaqueWindow_cong:
  assumes "cwidth c' = cwidth c" and "cheight c' = cheight c"
    and "\<And>px py. cbyte c' px py 3 = cbyte c px py 3"
  shows "opaqueWindow c' x y b = opaqueWindow c x y b"
  using assms by (simp add: opaqueWindow_def inCanvas_def)

lemma smudgeWalk_small_brush:
  assumes "0 < b" and "b < 1" and "0 < len"
  shows "smudgeWalk c x1 y1 ux uy len b opacity 0 = Inl IndexSizeError"
proof -
  have "\<lfloor>b\<rfloor> = 0" using assms(1,2) by (simp add: floor_eq_iff)
  then have "smudgeStep c x y b opacity = Inl IndexSizeError" for x y
    using assms(1) by (simp add: smudgeStep_def getImageData_def trunc_def)
  then show ?thesis
    using assms(3) by (subst smudgeWalk.simps) simp
qed


lemma brushPixels_2: "brushPixels 2 2 = [(0, 1), (1, 0), (1, 1)]"
  by (simp add: brushPixels_def withinBrush_def upt_rec_numeral numeral_2_eq_2)

lemma opaqueWindow_fourPixels: "opaqueWindow fourPixels x y b"
  by (simp add: opaqueWindow_def fourPixels_def Let_def list_all_iff)



end
